theory Spec2Isabelle
  imports Main "HOL-Library.Word"
begin

unbundle bit_operations_syntax

section \<open>Runtime values: buffers and strings\<close>

text \<open>
  A Node \<open>Buffer\<close> is a sequence of octets. A JavaScript string is a sequence of
  UTF-16 code units; \<open>ascii\<close> writes a string literal of the source as code units.
\<close>

type_synonym byte = "8 word"
type_synonym buffer = "byte list"
type_synonym jsstring = "16 word list"

definition ascii :: "string \<Rightarrow> jsstring" where
  "ascii s = map of_char s"

subsection \<open>\<open>buf.toString("base64")\<close> and its inverse\<close>

definition b64_alphabet :: "jsstring" where
  "b64_alphabet =
     ascii ''ABCDEFGHIJKLMNOPQRSTUVWXYZabcdefghijklmnopqrstuvwxyz0123456789+/''"

definition b64_pad :: "16 word" where
  "b64_pad = of_char (CHR ''='')"

definition b64_char :: "nat \<Rightarrow> 16 word" where
  "b64_char k = b64_alphabet ! (k mod 64)"

text \<open>
  Three octets make one 24-bit group, written as four sextets; a tail of one or two
  octets is padded with \<open>=\<close>.
\<close>

fun base64_encode :: "buffer \<Rightarrow> jsstring" where
  "base64_encode [] = []"
| "base64_encode [a] =
     (let n = unat a * 65536
      in [b64_char (n div 262144), b64_char (n div 4096), b64_pad, b64_pad])"
| "base64_encode [a, b] =
     (let n = unat a * 65536 + unat b * 256
      in [b64_char (n div 262144), b64_char (n div 4096), b64_char (n div 64), b64_pad])"
| "base64_encode (a # b # c # rest) =
     (let n = unat a * 65536 + unat b * 256 + unat c
      in [b64_char (n div 262144), b64_char (n div 4096), b64_char (n div 64), b64_char n]
         @ base64_encode rest)"

definition b64_index :: "16 word \<Rightarrow> nat option" where
  "b64_index u = map_of (zip b64_alphabet [0..<64]) u"

text \<open>
  The reader's side of the base64 text (RFC 4648, as \<open>Buffer.from(s, "base64")\<close> reads
  what \<open>toString("base64")\<close> wrote): four characters give three octets, a padded last
  group gives one or two. \<open>None\<close> is text that is not canonical base64.
\<close>

fun base64_decode :: "jsstring \<Rightarrow> buffer option" where
  "base64_decode [] = Some []"
| "base64_decode (p # q # r # s # rest) =
     (case (b64_index p, b64_index q) of
        (Some i, Some j) \<Rightarrow>
          (if r = b64_pad \<and> s = b64_pad \<and> rest = [] then
             Some [of_nat ((i * 64 + j) div 16)]
           else
             (case b64_index r of
                None \<Rightarrow> None
              | Some k \<Rightarrow>
                  (if s = b64_pad \<and> rest = [] then
                     (let n = (i * 64 + j) * 64 + k
                      in Some [of_nat (n div 1024), of_nat (n div 4)])
                   else
                     (case (b64_index s, base64_decode rest) of
                        (Some l, Some bs) \<Rightarrow>
                          (let n = ((i * 64 + j) * 64 + k) * 64 + l
                           in Some (of_nat (n div 65536) # of_nat (n div 256) # of_nat n # bs))
                      | _ \<Rightarrow> None))))
      | _ \<Rightarrow> None)"
| "base64_decode _ = None"

subsection \<open>\<open>buf.toString("utf8")\<close> and \<open>Buffer.from(str, "utf8")\<close>\<close>

text \<open>
  Node decodes UTF-8 with replacement: every ill-formed maximal subpart becomes one
  U+FFFD, and the byte that ended it is read again as the start of a sequence. The state
  is the code point collected so far, the number of continuation bytes still expected and
  the range allowed for the next continuation byte.
\<close>

function utf8_scalars :: "nat \<Rightarrow> nat \<Rightarrow> nat \<Rightarrow> nat \<Rightarrow> buffer \<Rightarrow> nat list" where
  "utf8_scalars cp need lo hi [] = (if need = 0 then [] else [0xFFFD])"
| "utf8_scalars cp need lo hi (b # bs) =
     (let v = unat b in
      if need = 0 then
        (if v \<le> 0x7F then v # utf8_scalars 0 0 0x80 0xBF bs
         else if 0xC2 \<le> v \<and> v \<le> 0xDF then utf8_scalars (v mod 32) 1 0x80 0xBF bs
         else if 0xE0 \<le> v \<and> v \<le> 0xEF then
           utf8_scalars (v mod 16) 2 (if v = 0xE0 then 0xA0 else 0x80)
             (if v = 0xED then 0x9F else 0xBF) bs
         else if 0xF0 \<le> v \<and> v \<le> 0xF4 then
           utf8_scalars (v mod 8) 3 (if v = 0xF0 then 0x90 else 0x80)
             (if v = 0xF4 then 0x8F else 0xBF) bs
         else 0xFFFD # utf8_scalars 0 0 0x80 0xBF bs)
      else if v < lo \<or> hi < v then 0xFFFD # utf8_scalars 0 0 0x80 0xBF (b # bs)
      else
        (let cp' = cp * 64 + v mod 64 in
         if need = 1 then cp' # utf8_scalars 0 0 0x80 0xBF bs
         else utf8_scalars cp' (need - 1) 0x80 0xBF bs))"
  by pat_completeness auto
termination
  by (relation "measure (\<lambda>(cp, need, lo, hi, bs). 2 * length bs + (if need = 0 then 0 else 1))")
     auto

text \<open>A code point above the basic plane is a surrogate pair in the string.\<close>

definition utf16_units :: "nat \<Rightarrow> jsstring" where
  "utf16_units cp =
     (if cp < 0x10000 then [of_nat cp]
      else [of_nat (0xD800 + (cp - 0x10000) div 1024), of_nat (0xDC00 + (cp - 0x10000) mod 1024)])"

definition toString_utf8 :: "buffer \<Rightarrow> jsstring" where
  "toString_utf8 message = concat (map utf16_units (utf8_scalars 0 0 0x80 0xBF message))"

definition utf8_bytes :: "nat \<Rightarrow> buffer" where
  "utf8_bytes cp =
     (if cp < 0x80 then [of_nat cp]
      else if cp < 0x800 then [of_nat (0xC0 + cp div 64), of_nat (0x80 + cp mod 64)]
      else if cp < 0x10000 then
        [of_nat (0xE0 + cp div 4096), of_nat (0x80 + cp div 64 mod 64), of_nat (0x80 + cp mod 64)]
      else
        [of_nat (0xF0 + cp div 262144), of_nat (0x80 + cp div 4096 mod 64),
         of_nat (0x80 + cp div 64 mod 64), of_nat (0x80 + cp mod 64)])"

definition is_high_surrogate :: "16 word \<Rightarrow> bool" where
  "is_high_surrogate u = (0xD800 \<le> unat u \<and> unat u \<le> 0xDBFF)"

definition is_low_surrogate :: "16 word \<Rightarrow> bool" where
  "is_low_surrogate u = (0xDC00 \<le> unat u \<and> unat u \<le> 0xDFFF)"

text \<open>
  \<open>Buffer.from(str, "utf8")\<close>: a surrogate pair is one four-byte sequence, a lone
  surrogate is written as U+FFFD.
\<close>

fun from_utf8 :: "jsstring \<Rightarrow> buffer" where
  "from_utf8 [] = []"
| "from_utf8 [u] =
     (if is_high_surrogate u \<or> is_low_surrogate u then utf8_bytes 0xFFFD
      else utf8_bytes (unat u))"
| "from_utf8 (u # v # rest) =
     (if is_high_surrogate u \<and> is_low_surrogate v then
        utf8_bytes (0x10000 + (unat u - 0xD800) * 1024 + (unat v - 0xDC00)) @ from_utf8 rest
      else if is_high_surrogate u \<or> is_low_surrogate u then
        utf8_bytes 0xFFFD @ from_utf8 (v # rest)
      else utf8_bytes (unat u) @ from_utf8 (v # rest))"

text \<open>
  Unicode scalar values, and strings without a lone surrogate: the strings that have a
  UTF-8 encoding of their own.
\<close>

definition isScalar :: "nat \<Rightarrow> bool" where
  "isScalar cp = (cp < 0xD800 \<or> (0xE000 \<le> cp \<and> cp < 0x110000))"

fun wellFormed :: "jsstring \<Rightarrow> bool" where
  "wellFormed [] = True"
| "wellFormed [u] = (\<not> is_high_surrogate u \<and> \<not> is_low_surrogate u)"
| "wellFormed (u # v # rest) =
     (if is_high_surrogate u then is_low_surrogate v \<and> wellFormed rest
      else \<not> is_low_surrogate u \<and> wellFormed (v # rest))"

section \<open>Configuration (\<open>config.ts\<close>)\<close>

subsection \<open>\<open>parseInt(str, 10)\<close>\<close>

text \<open>
  \<open>parseInt\<close> skips leading white space, reads an optional sign and then the longest
  prefix of decimal digits; with no digit the result is \<open>NaN\<close>, here \<open>None\<close>. The
  value is kept as an integer: rounding a long digit string to a double is monotone and
  exact on small integers, so it does not change a comparison with 0, 1 or 2 or with zero.
\<close>

definition is_white_space :: "16 word \<Rightarrow> bool" where
  "is_white_space u =
     (unat u \<in> set [0x09, 0x0A, 0x0B, 0x0C, 0x0D, 0x20, 0xA0, 0x1680, 0x2028, 0x2029,
                      0x202F, 0x205F, 0x3000, 0xFEFF]
      \<or> (0x2000 \<le> unat u \<and> unat u \<le> 0x200A))"

definition digit_value :: "16 word \<Rightarrow> nat option" where
  "digit_value u = (if 0x30 \<le> unat u \<and> unat u \<le> 0x39 then Some (unat u - 0x30) else None)"

fun digits_prefix :: "jsstring \<Rightarrow> nat list" where
  "digits_prefix [] = []"
| "digits_prefix (u # us) =
     (case digit_value u of None \<Rightarrow> [] | Some d \<Rightarrow> d # digits_prefix us)"

definition parseInt :: "jsstring \<Rightarrow> int option" where
  "parseInt str =
     (let t = dropWhile is_white_space str;
          negative = (case t of [] \<Rightarrow> False | u # _ \<Rightarrow> u = of_char (CHR ''-''));
          t' = (case t of
                  [] \<Rightarrow> []
                | u # us \<Rightarrow> if u = of_char (CHR ''+'') \<or> u = of_char (CHR ''-'') then us else t);
          ds = digits_prefix t'
      in if ds = [] then None
         else Some ((if negative then - 1 else 1) * int (foldl (\<lambda>acc d. acc * 10 + d) 0 ds)))"

subsection \<open>Reading the environment\<close>

type_synonym env = "jsstring \<rightharpoonup> jsstring"

datatype config_error =
    MustBeDefined jsstring
  | MustBeNonNegativeInteger jsstring
  | MustBeFalseOrTrue jsstring
  | MustBeQoS jsstring jsstring
  | BothOrNeither jsstring jsstring
  | RandomBytesSizeOutOfRange

definition bindE :: "'e + 'a \<Rightarrow> ('a \<Rightarrow> 'e + 'b) \<Rightarrow> 'e + 'b" where
  "bindE r f = (case r of Inl e \<Rightarrow> Inl e | Inr v \<Rightarrow> f v)"

definition getRequired :: "env \<Rightarrow> jsstring \<Rightarrow> config_error + jsstring" where
  "getRequired e envVariable =
     (case e envVariable of None \<Rightarrow> Inl (MustBeDefined envVariable) | Some variable \<Rightarrow> Inr variable)"

definition getOptional :: "env \<Rightarrow> jsstring \<Rightarrow> jsstring option" where
  "getOptional e envVariable = e envVariable"

definition getOptionalNonNegativeInteger :: "env \<Rightarrow> jsstring \<Rightarrow> config_error + int option" where
  "getOptionalNonNegativeInteger e envVariable =
     (case getOptional e envVariable of
        None \<Rightarrow> Inr None
      | Some str \<Rightarrow>
          (case parseInt str of
             None \<Rightarrow> Inl (MustBeNonNegativeInteger envVariable)
           | Some num \<Rightarrow>
               if num < 0 then Inl (MustBeNonNegativeInteger envVariable) else Inr (Some num)))"

definition getOptionalBooleanWithDefault :: "env \<Rightarrow> jsstring \<Rightarrow> bool \<Rightarrow> config_error + bool" where
  "getOptionalBooleanWithDefault e envVariable defaultValue =
     (case getOptional e envVariable of
        None \<Rightarrow> Inr defaultValue
      | Some str \<Rightarrow>
          if str \<notin> set [ascii ''false'', ascii ''true''] then Inl (MustBeFalseOrTrue envVariable)
          else Inr (str = ascii ''true''))"

text \<open>
  \<open>getQoS\<close>: the variable, or the default string when it is undefined, goes through
  \<open>parseInt\<close>; anything but 0, 1 or 2 (\<open>NaN\<close> too) throws.
\<close>

definition getQoS :: "env \<Rightarrow> jsstring \<Rightarrow> jsstring \<Rightarrow> config_error + nat" where
  "getQoS e envVar defaultStr =
     (case parseInt (case e envVar of None \<Rightarrow> defaultStr | Some str \<Rightarrow> str) of
        None \<Rightarrow> Inl (MustBeQoS envVar defaultStr)
      | Some qos \<Rightarrow>
          if qos \<noteq> 0 \<and> qos \<noteq> 1 \<and> qos \<noteq> 2 then Inl (MustBeQoS envVar defaultStr)
          else Inr (nat qos))"

record SaveToFileConfig =
  enabled :: bool
  filePath :: jsstring

definition getSaveToFileConfig :: "env \<Rightarrow> config_error + SaveToFileConfig" where
  "getSaveToFileConfig e =
     bindE (getOptionalBooleanWithDefault e (ascii ''SAVE_MESSAGES_TO_FILE'') False) (\<lambda>en.
       Inr \<lparr>enabled = en,
            filePath = (case getOptional e (ascii ''SAVE_MESSAGES_FILE_PATH'') of
                          None \<Rightarrow> ascii ''./messages.ndjson'' | Some p \<Rightarrow> p)\<rparr>)"

definition getMqttAuthFromPaths ::
  "env \<Rightarrow> jsstring \<Rightarrow> jsstring \<Rightarrow> config_error + (jsstring \<times> jsstring) option" where
  "getMqttAuthFromPaths e usernameEnv passwordEnv =
     (case (e usernameEnv, e passwordEnv) of
        (Some usernamePath, Some passwordPath) \<Rightarrow> Inr (Some (usernamePath, passwordPath))
      | (None, None) \<Rightarrow> Inr None
      | _ \<Rightarrow> Inl (BothOrNeither usernameEnv passwordEnv))"

text \<open>
  \<open>crypto.randomBytes(n)\<close> takes its octets from an entropy source \<open>rnd\<close> and refuses a
  size above \<open>2^31 - 1\<close>. The suffix is the first \<open>n\<close> characters of their base64 text.
\<close>

definition createMqttClientId ::
  "env \<Rightarrow> (nat \<Rightarrow> byte) \<Rightarrow> jsstring \<Rightarrow> jsstring \<Rightarrow> config_error + jsstring" where
  "createMqttClientId e rnd prefixEnv suffixLengthEnv =
     bindE (getRequired e prefixEnv) (\<lambda>prefix.
     bindE (getOptionalNonNegativeInteger e suffixLengthEnv) (\<lambda>len.
       let suffixLength = nat (case len of None \<Rightarrow> 0 | Some n \<Rightarrow> n)
       in if 2 ^ 31 - 1 < suffixLength then Inl RandomBytesSizeOutOfRange
          else Inr (prefix @ take suffixLength (base64_encode (map rnd [0..<suffixLength])))))"

record clientOptions =
  clientId :: jsstring
  clean :: bool
  auth :: "(jsstring \<times> jsstring) option"

record MqttConfig =
  url :: jsstring
  clientOptions :: clientOptions

record SourceMqttConfig = MqttConfig +
  topicFilter :: jsstring
  subscribeQos :: nat

record DestMqttConfig = MqttConfig +
  qosMax :: nat
  forwardRetain :: bool

text \<open>
  The properties \<open>source\<close>, \<open>dest\<close>, \<open>healthCheck.port\<close> and \<open>saveToFile\<close> of
  \<open>Config\<close>; the port is whatever \<open>parseInt\<close> gave, \<open>NaN\<close> included.
\<close>

record Config =
  sourceConfig :: SourceMqttConfig
  destConfig :: DestMqttConfig
  healthCheckPort :: "int option"
  saveToFileConfig :: SaveToFileConfig

definition getSourceMqttConfig :: "env \<Rightarrow> (nat \<Rightarrow> byte) \<Rightarrow> config_error + SourceMqttConfig" where
  "getSourceMqttConfig e rnd =
     bindE (getRequired e (ascii ''SOURCE_MQTT_URL'')) (\<lambda>u.
     bindE (getMqttAuthFromPaths e (ascii ''SOURCE_MQTT_USERNAME_PATH'')
              (ascii ''SOURCE_MQTT_PASSWORD_PATH'')) (\<lambda>a.
     bindE (createMqttClientId e rnd (ascii ''SOURCE_MQTT_CLIENT_ID_PREFIX'')
              (ascii ''SOURCE_MQTT_CLIENT_ID_SUFFIX_LENGTH'')) (\<lambda>cid.
     bindE (getRequired e (ascii ''SOURCE_MQTT_TOPIC_FILTER'')) (\<lambda>tf.
     bindE (getQoS e (ascii ''SOURCE_MQTT_QOS'') (ascii ''2'')) (\<lambda>q.
     bindE (getOptionalBooleanWithDefault e (ascii ''SOURCE_MQTT_CLEAN_SESSION'') False) (\<lambda>cl.
       Inr \<lparr>url = u, clientOptions = \<lparr>clientId = cid, clean = cl, auth = a\<rparr>,
            topicFilter = tf, subscribeQos = q\<rparr>))))))"

definition getDestMqttConfig :: "env \<Rightarrow> (nat \<Rightarrow> byte) \<Rightarrow> config_error + DestMqttConfig" where
  "getDestMqttConfig e rnd =
     bindE (getRequired e (ascii ''DEST_MQTT_URL'')) (\<lambda>u.
     bindE (getMqttAuthFromPaths e (ascii ''DEST_MQTT_USERNAME_PATH'')
              (ascii ''DEST_MQTT_PASSWORD_PATH'')) (\<lambda>a.
     bindE (createMqttClientId e rnd (ascii ''DEST_MQTT_CLIENT_ID_PREFIX'')
              (ascii ''DEST_MQTT_CLIENT_ID_SUFFIX_LENGTH'')) (\<lambda>cid.
     bindE (getOptionalBooleanWithDefault e (ascii ''DEST_MQTT_CLEAN_SESSION'') True) (\<lambda>cl.
     bindE (getQoS e (ascii ''FORWARD_QOS_MAX'') (ascii ''1'')) (\<lambda>qm.
     bindE (getOptionalBooleanWithDefault e (ascii ''FORWARD_RETAIN'') True) (\<lambda>fr.
       Inr \<lparr>url = u, clientOptions = \<lparr>clientId = cid, clean = cl, auth = a\<rparr>,
            qosMax = qm, forwardRetain = fr\<rparr>))))))"

definition getHealthCheckConfig :: "env \<Rightarrow> int option" where
  "getHealthCheckConfig e =
     parseInt (case getOptional e (ascii ''HEALTH_CHECK_PORT'') of
                 None \<Rightarrow> ascii ''8080'' | Some p \<Rightarrow> p)"

text \<open>The object literal of \<open>getConfig\<close> evaluates its four properties in order.\<close>

definition getConfig :: "env \<Rightarrow> (nat \<Rightarrow> byte) \<Rightarrow> (nat \<Rightarrow> byte) \<Rightarrow> config_error + Config" where
  "getConfig e rndSource rndDest =
     bindE (getSourceMqttConfig e rndSource) (\<lambda>s.
     bindE (getDestMqttConfig e rndDest) (\<lambda>d.
     bindE (Inr (getHealthCheckConfig e)) (\<lambda>h.
     bindE (getSaveToFileConfig e) (\<lambda>f.
       Inr \<lparr>sourceConfig = s, destConfig = d, healthCheckPort = h, saveToFileConfig = f\<rparr>))))"

section \<open>The duplicator (\<open>mqtt.ts\<close>)\<close>

text \<open>
  What the process does to the outside is a list of calls, in the order they are made.
  Log calls keep their message; the interval report keeps the two counters it prints.
\<close>

datatype client = SourceClient | DestClient

datatype payloadEncoding = Utf8 | Base64

text \<open>The packet of an inbound publish, as the MQTT client hands it to the handler.\<close>

record packet =
  qos :: nat
  retain :: bool
  dup :: bool

text \<open>One line of the NDJSON file; \<open>auditDup\<close> is the record's \<open>dup\<close> property.\<close>

record AuditRecord =
  time :: jsstring
  topic :: jsstring
  incomingQos :: nat
  incomingRetain :: bool
  auditDup :: bool
  payloadEncoding :: payloadEncoding
  payload :: jsstring

datatype effect =
    LogDebug string
  | LogInfo string
  | LogWarn string
  | LogError string
  | LogFatal string
  | Report nat nat
  | Connect client jsstring
  | AttachClientEventLogs client
  | CreateWriteStream jsstring
  | SetInterval nat
  | OnMessage DestMqttConfig "SaveToFileConfig option"
  | Subscribe jsstring nat
  | OnClose client
  | WriterWrite AuditRecord
  | Publish jsstring buffer nat bool
  | WriterEnd
  | SetExitCode int
  | SetHealthOk bool
  | Unsubscribe
  | ClientEnd client
  | CloseHealthCheckServer
  | ProcessExit

text \<open>
  The variables the closures of \<open>createDuplicator\<close> share: the two counters, whether
  \<open>writer\<close> is defined, \<open>writerClosed\<close>, and the lines handed to the write stream.
  The counters are JavaScript numbers that start at 0 and grow by 1 between two resets.
\<close>

record duplicator =
  nRecentForwarded :: nat
  nRecentDropped :: nat
  writer :: bool
  writerClosed :: bool
  written :: "AuditRecord list"

definition logIntervalInSeconds :: nat where
  "logIntervalInSeconds = 60"

text \<open>
  What the surroundings decide while one message is audited: the clock, and whether a
  call inside the \<open>try\<close> block throws.
\<close>

record auditing =
  now :: jsstring
  utf8Throws :: bool
  base64Throws :: bool
  writeThrows :: bool

definition saveEnabled :: "SaveToFileConfig option \<Rightarrow> bool" where
  "saveEnabled saveToFile = (case saveToFile of None \<Rightarrow> False | Some c \<Rightarrow> enabled c)"

text \<open>
  Lines 208 to 220 of the handler: the text of the payload and its encoding, or \<open>None\<close>
  when an exception leaves the inner \<open>try\<close>/\<open>catch\<close>.
\<close>

definition encodePayload :: "auditing \<Rightarrow> buffer \<Rightarrow> (payloadEncoding \<times> jsstring) option" where
  "encodePayload a message =
     (if utf8Throws a then
        (if base64Throws a then None else Some (Base64, base64_encode message))
      else
        (let decoded = toString_utf8 message in
         if from_utf8 decoded \<noteq> message then
           (if base64Throws a then None else Some (Base64, base64_encode message))
         else Some (Utf8, decoded)))"

definition saveMessage ::
  "auditing \<Rightarrow> duplicator \<Rightarrow> jsstring \<Rightarrow> buffer \<Rightarrow> packet \<Rightarrow> effect list \<times> duplicator" where
  "saveMessage a st topicName message packet =
     (case encodePayload a message of
        None \<Rightarrow> ([LogError ''Failed to write message to file''], st)
      | Some (encoding, text) \<Rightarrow>
          (let record = \<lparr>time = now a, topic = topicName, incomingQos = qos packet,
                         incomingRetain = retain packet, auditDup = dup packet,
                         payloadEncoding = encoding, payload = text\<rparr>
           in if writeThrows a then ([LogError ''Failed to write message to file''], st)
              else ([WriterWrite record], st\<lparr>written := written st @ [record]\<rparr>)))"

text \<open>The \<open>"message"\<close> handler of the source client.\<close>

definition onMessage ::
  "DestMqttConfig \<Rightarrow> SaveToFileConfig option \<Rightarrow> auditing \<Rightarrow> duplicator \<Rightarrow>
   jsstring \<Rightarrow> buffer \<Rightarrow> packet \<Rightarrow> effect list \<times> duplicator" where
  "onMessage dest saveToFile a st topicName message packet =
     (let outQos = min (qos packet) (qosMax dest);
          outRetain = (if forwardRetain dest then retain packet else False);
          (saved, st') =
            (if saveEnabled saveToFile \<and> writer st \<and> \<not> writerClosed st
             then saveMessage a st topicName message packet
             else ([], st))
      in (LogDebug ''Received message from source MQTT'' # saved
            @ [Publish topicName message outQos outRetain], st'))"

text \<open>The two callbacks of the promise that \<open>destClient.publish\<close> returns.\<close>

definition onPublished :: "duplicator \<Rightarrow> effect list \<times> duplicator" where
  "onPublished st =
     ([LogDebug ''Published message to destination MQTT''],
      st\<lparr>nRecentForwarded := nRecentForwarded st + 1\<rparr>)"

definition onPublishFailed :: "duplicator \<Rightarrow> effect list \<times> duplicator" where
  "onPublishFailed st =
     ([LogError ''Publishing to destination failed''],
      st\<lparr>nRecentDropped := nRecentDropped st + 1\<rparr>)"

text \<open>The callback of \<open>setInterval\<close>.\<close>

definition onInterval :: "duplicator \<Rightarrow> effect list \<times> duplicator" where
  "onInterval st =
     ([Report (nRecentForwarded st) (nRecentDropped st)],
      st\<lparr>nRecentForwarded := 0, nRecentDropped := 0\<rparr>)"

text \<open>The \<open>"close"\<close> event of the write stream.\<close>

definition onWriterClose :: "duplicator \<Rightarrow> effect list \<times> duplicator" where
  "onWriterClose st = ([], st\<lparr>writerClosed := True\<rparr>)"

definition closeWriterIfOpen :: "bool \<Rightarrow> duplicator \<Rightarrow> effect list \<times> duplicator" where
  "closeWriterIfOpen endThrows st =
     (if writer st \<and> \<not> writerClosed st then
        (if endThrows then ([WriterEnd, LogError ''Failed to close file writer''], st)
         else ([WriterEnd], st))
      else ([], st))"

text \<open>
  The listeners of a client's \<open>"close"\<close> event, in the order they were attached: the
  lifecycle log of \<open>attachClientEventLogs\<close>, then \<open>closeWriterIfOpen\<close>.
\<close>

definition onClientClose :: "bool \<Rightarrow> duplicator \<Rightarrow> effect list \<times> duplicator" where
  "onClientClose endThrows st =
     (let (fx, st') = closeWriterIfOpen endThrows st
      in (LogWarn ''MQTT client connection closed'' # fx, st'))"

text \<open>The events the running duplicator reacts to, and a run over a list of them.\<close>

datatype event =
    Message jsstring buffer packet auditing
  | PublishFulfilled
  | PublishRejected
  | IntervalElapsed
  | WriterClosed
  | ClientClosed bool

fun react ::
  "DestMqttConfig \<Rightarrow> SaveToFileConfig option \<Rightarrow> duplicator \<Rightarrow> event \<Rightarrow> effect list \<times> duplicator"
where
  "react dest saveToFile st (Message topicName message packet a) =
     onMessage dest saveToFile a st topicName message packet"
| "react dest saveToFile st PublishFulfilled = onPublished st"
| "react dest saveToFile st PublishRejected = onPublishFailed st"
| "react dest saveToFile st IntervalElapsed = onInterval st"
| "react dest saveToFile st WriterClosed = onWriterClose st"
| "react dest saveToFile st (ClientClosed endThrows) = onClientClose endThrows st"

fun run ::
  "DestMqttConfig \<Rightarrow> SaveToFileConfig option \<Rightarrow> duplicator \<Rightarrow> event list \<Rightarrow> effect list \<times> duplicator"
where
  "run dest saveToFile st [] = ([], st)"
| "run dest saveToFile st (ev # evs) =
     (let (fx, st') = react dest saveToFile st ev;
          (fx', st'') = run dest saveToFile st' evs
      in (fx @ fx', st''))"

subsection \<open>\<open>createDuplicator\<close>\<close>

datatype startup_error = ConnectFailed client | SubscribeFailed

record startup =
  sourceConnectFails :: bool
  destConnectFails :: bool
  createWriteStreamThrows :: bool
  subscribeFails :: bool

text \<open>
  \<open>ensureWriter\<close>: \<open>mkdirSync\<close> and \<open>createWriteStream\<close> are taken together as the one
  place where the \<open>try\<close> block may throw.
\<close>

definition ensureWriter ::
  "SaveToFileConfig option \<Rightarrow> bool \<Rightarrow> duplicator \<Rightarrow> effect list \<times> duplicator" where
  "ensureWriter saveToFile createThrows st =
     (case saveToFile of
        None \<Rightarrow> ([], st)
      | Some c \<Rightarrow>
          if \<not> enabled c \<or> writer st \<or> writerClosed st then ([], st)
          else if createThrows then ([LogError ''Failed to initialize save-to-file writer''], st)
          else ([CreateWriteStream (filePath c), LogInfo ''Enabled save-to-file''],
                st\<lparr>writer := True\<rparr>))"

definition initial :: duplicator where
  "initial = \<lparr>nRecentForwarded = 0, nRecentDropped = 0, writer = False, writerClosed = False,
              written = []\<rparr>"

text \<open>
  The body of \<open>createDuplicator\<close> up to its \<open>return\<close>, or up to the exception that leaves
  it: the calls made, and the duplicator's variables or the error.
\<close>

definition createDuplicator ::
  "startup \<Rightarrow> SourceMqttConfig \<Rightarrow> DestMqttConfig \<Rightarrow> SaveToFileConfig option \<Rightarrow>
   effect list \<times> (startup_error + duplicator)" where
  "createDuplicator s source dest saveToFile =
     (let fx1 = [LogInfo ''Connect to MQTT broker'', Connect SourceClient (url source)] in
      if sourceConnectFails s then (fx1, Inl (ConnectFailed SourceClient))
      else
        (let fx2 = fx1 @ [LogInfo ''Connect to MQTT broker'', Connect DestClient (url dest)] in
         if destConnectFails s then (fx2, Inl (ConnectFailed DestClient))
         else
           (let (wfx, st) = ensureWriter saveToFile (createWriteStreamThrows s) initial;
                fx3 = fx2 @ [AttachClientEventLogs SourceClient, AttachClientEventLogs DestClient]
                        @ wfx
                        @ [SetInterval (1000 * logIntervalInSeconds),
                           OnMessage dest saveToFile,
                           LogInfo ''Subscribe to source MQTT topics'',
                           Subscribe (topicFilter source) (subscribeQos source)]
            in if subscribeFails s then
                 (fx3 @ [LogFatal ''Subscribing to source MQTT topics failed''], Inl SubscribeFailed)
               else
                 (fx3 @ [LogDebug ''Subscribed to source MQTT topics'',
                         OnClose SourceClient, OnClose DestClient], Inr st))))"

section \<open>Shutdown (\<open>index.ts\<close>)\<close>

text \<open>
  \<open>exitGracefully\<close> receives each handle or \<open>undefined\<close>. Every call it makes may throw
  (or return a rejected promise). A client that is ended may emit \<open>"close"\<close> before
  \<open>end()\<close> settles; the duplicator has \<open>closeWriterIfOpen\<close> listening to that event on
  both clients. After \<open>writer.end()\<close> has been called, the stream's own \<open>"close"\<close> event
  may or may not have arrived when the next call is made.
\<close>

record handles =
  hasSetHealthOk :: bool
  hasCloseHealthCheckServer :: bool
  hasSourceClient :: bool
  hasDestClient :: bool
  hasMqttUnsubscribe :: bool

record ending =
  emitsClose :: bool
  endThrows :: bool

record shutdown =
  setHealthOkThrows :: bool
  unsubscribeThrows :: bool
  sourceEnd :: ending
  destEnd :: ending
  writerEndThrows :: bool
  writerCloseArrives :: bool
  closeHealthCheckServerThrows :: bool

definition guarded :: "bool \<Rightarrow> string \<Rightarrow> effect list \<Rightarrow> bool \<Rightarrow> string \<Rightarrow> effect list" where
  "guarded present info call throws failure =
     (if present then LogInfo info # call @ (if throws then [LogError failure] else []) else [])"

definition endClient :: "shutdown \<Rightarrow> ending \<Rightarrow> client \<Rightarrow> duplicator \<Rightarrow> effect list \<times> duplicator" where
  "endClient sh e c st =
     (if emitsClose e then
        (let (fx, st') = onClientClose (writerEndThrows sh) st;
             st'' = (if writer st \<and> \<not> writerClosed st \<and> writerCloseArrives sh
                     then snd (onWriterClose st') else st')
         in (ClientEnd c # fx, st''))
      else ([ClientEnd c], st))"

definition exitGracefully ::
  "shutdown \<Rightarrow> handles \<Rightarrow> int \<Rightarrow> bool \<Rightarrow> duplicator \<Rightarrow> effect list \<times> duplicator" where
  "exitGracefully sh h exitCode exitError st =
     (let (sfx, st1) = (if hasSourceClient h then endClient sh (sourceEnd sh) SourceClient st
                        else ([], st));
          (dfx, st2) = (if hasDestClient h then endClient sh (destEnd sh) DestClient st1
                        else ([], st1))
      in ((if exitError then [LogFatal ''exitError''] else [])
          @ [LogInfo ''Start exiting gracefully'', SetExitCode exitCode]
          @ guarded (hasSetHealthOk h) ''Set health checks to fail'' [SetHealthOk False]
              (setHealthOkThrows sh) ''Something went wrong when setting health checks to fail''
          @ guarded (hasMqttUnsubscribe h) ''Unsubscribe from source MQTT topics'' [Unsubscribe]
              (unsubscribeThrows sh) ''Something went wrong when unsubscribing from MQTT topics''
          @ guarded (hasSourceClient h) ''Disconnect source MQTT client'' sfx
              (endThrows (sourceEnd sh))
              ''Something went wrong when disconnecting source MQTT client''
          @ guarded (hasDestClient h) ''Disconnect destination MQTT client'' dfx
              (endThrows (destEnd sh))
              ''Something went wrong when disconnecting destination MQTT client''
          @ guarded (hasCloseHealthCheckServer h) ''Close health check server''
              [CloseHealthCheckServer] (closeHealthCheckServerThrows sh)
              ''Something went wrong when closing health check server''
          @ [LogInfo ''Exit process'', ProcessExit],
          st2))"

section \<open>Observations on a list of calls\<close>

text \<open>The calls of \<open>destClient.publish\<close> among the calls made, with their arguments.\<close>

fun publishCalls :: "effect list \<Rightarrow> (jsstring \<times> buffer \<times> nat \<times> bool) list" where
  "publishCalls [] = []"
| "publishCalls (Publish t m q r # fx) = (t, m, q, r) # publishCalls fx"
| "publishCalls (_ # fx) = publishCalls fx"

text \<open>
  Reading a record back, as the round-trip property asks: the text is encoded to UTF-8,
  or the base64 text is decoded.
\<close>

definition decodePayload :: "AuditRecord \<Rightarrow> buffer option" where
  "decodePayload r =
     (case payloadEncoding r of
        Utf8 \<Rightarrow> Some (from_utf8 (payload r))
      | Base64 \<Rightarrow> base64_decode (payload r))"

text \<open>
  The calls that are steps of a shutdown: failing the health check, unsubscribing, ending a
  client, ending the file writer and closing the health check server.
\<close>

fun isShutdownStep :: "effect \<Rightarrow> bool" where
  "isShutdownStep (SetHealthOk _) = True"
| "isShutdownStep Unsubscribe = True"
| "isShutdownStep (ClientEnd _) = True"
| "isShutdownStep WriterEnd = True"
| "isShutdownStep CloseHealthCheckServer = True"
| "isShutdownStep _ = False"

definition shutdownSteps :: "effect list \<Rightarrow> effect list" where
  "shutdownSteps fx = filter isShutdownStep fx"

text \<open>
  What \<open>exitGracefully\<close> attempts itself and the errors it logs: the steps and error logs
  of a list of calls, without the writer's end and the error of \<open>closeWriterIfOpen\<close>.
\<close>

fun isLogError :: "effect \<Rightarrow> bool" where
  "isLogError (LogError _) = True"
| "isLogError _ = False"

definition attempts :: "effect list \<Rightarrow> effect list" where
  "attempts fx =
     filter (\<lambda>e. (isShutdownStep e \<or> isLogError e) \<and> e \<noteq> WriterEnd
                 \<and> e \<noteq> LogError ''Failed to close file writer'') fx"

text \<open>
  The order of steps that the shutdown contract names: health, unsubscribe, source client,
  destination client, and only then the file writer and the health check server.
\<close>

definition claimedOrder :: "effect list \<Rightarrow> bool" where
  "claimedOrder steps =
     (take 4 steps = [SetHealthOk False, Unsubscribe, ClientEnd SourceClient, ClientEnd DestClient]
      \<and> list_all (\<lambda>e. e = WriterEnd \<or> e = CloseHealthCheckServer) (drop 4 steps))"

text \<open>The subscribe call, and the handlers registered for \<open>"message"\<close> by a list of calls.\<close>

fun isSubscribe :: "effect \<Rightarrow> bool" where
  "isSubscribe (Subscribe _ _) = True"
| "isSubscribe _ = False"

fun messageHandlers :: "effect list \<Rightarrow> (DestMqttConfig \<times> SaveToFileConfig option) list" where
  "messageHandlers [] = []"
| "messageHandlers (OnMessage d s # fx) = (d, s) # messageHandlers fx"
| "messageHandlers (_ # fx) = messageHandlers fx"

subsection \<open>Values for worked examples\<close>

definition policy :: "nat \<Rightarrow> bool \<Rightarrow> DestMqttConfig" where
  "policy m fr =
     \<lparr>url = ascii ''mqtt://dest'',
      clientOptions = \<lparr>clientId = ascii ''dest'', clean = True, auth = None\<rparr>,
      qosMax = m, forwardRetain = fr\<rparr>"

definition inbound :: "nat \<Rightarrow> bool \<Rightarrow> packet" where
  "inbound q r = \<lparr>qos = q, retain = r, dup = False\<rparr>"

definition quiet :: auditing where
  "quiet = \<lparr>now = ascii ''2025-10-30T16:05:00.123Z'', utf8Throws = False,
            base64Throws = False, writeThrows = False\<rparr>"

definition auditOn :: "SaveToFileConfig option" where
  "auditOn = Some \<lparr>enabled = True, filePath = ascii ''./messages.ndjson''\<rparr>"

definition opened :: duplicator where
  "opened = initial\<lparr>writer := True\<rparr>"

definition auditRecord :: "nat \<Rightarrow> bool \<Rightarrow> payloadEncoding \<Rightarrow> jsstring \<Rightarrow> AuditRecord" where
  "auditRecord q r encoding str =
     \<lparr>time = now quiet, topic = ascii ''t/1'', incomingQos = q, incomingRetain = r,
      auditDup = False, payloadEncoding = encoding, payload = str\<rparr>"

definition calm :: startup where
  "calm = \<lparr>sourceConnectFails = False, destConnectFails = False,
           createWriteStreamThrows = False, subscribeFails = False\<rparr>"

definition sourceOf :: "jsstring \<Rightarrow> nat \<Rightarrow> SourceMqttConfig" where
  "sourceOf tf q =
     \<lparr>url = ascii ''mqtt://source'',
      clientOptions = \<lparr>clientId = ascii ''source'', clean = False, auth = None\<rparr>,
      topicFilter = tf, subscribeQos = q\<rparr>"

definition requiredEnv :: "(jsstring \<times> jsstring) list" where
  "requiredEnv =
     [(ascii ''SOURCE_MQTT_URL'', ascii ''mqtt://source''),
      (ascii ''SOURCE_MQTT_CLIENT_ID_PREFIX'', ascii ''src''),
      (ascii ''SOURCE_MQTT_TOPIC_FILTER'', ascii ''t/#''),
      (ascii ''DEST_MQTT_URL'', ascii ''mqtt://dest''),
      (ascii ''DEST_MQTT_CLIENT_ID_PREFIX'', ascii ''dest'')]"

definition allHandles :: handles where
  "allHandles = \<lparr>hasSetHealthOk = True, hasCloseHealthCheckServer = True, hasSourceClient = True,
                 hasDestClient = True, hasMqttUnsubscribe = True\<rparr>"

definition smooth :: shutdown where
  "smooth = \<lparr>setHealthOkThrows = False, unsubscribeThrows = False,
             sourceEnd = \<lparr>emitsClose = True, endThrows = False\<rparr>,
             destEnd = \<lparr>emitsClose = True, endThrows = False\<rparr>,
             writerEndThrows = False, writerCloseArrives = True,
             closeHealthCheckServerThrows = False\<rparr>"

section \<open>Properties of the encodings\<close>

lemmas runtime_defs =
  toString_utf8_def utf16_units_def utf8_bytes_def is_high_surrogate_def is_low_surrogate_def
  ascii_def b64_char_def b64_alphabet_def b64_pad_def

lemmas example_defs =
  policy_def auditOn_def quiet_def opened_def inbound_def auditRecord_def initial_def

subsection \<open>Base64 text decodes to the octets it was made from\<close>

lemma b64_alphabet_length: "length b64_alphabet = 64"
  by (simp add: b64_alphabet_def ascii_def)

lemma b64_alphabet_distinct: "distinct b64_alphabet"
  by (simp add: b64_alphabet_def ascii_def)

lemma b64_index_char: "b64_index (b64_char k) = Some (k mod 64)"
proof -
  have "map_of (zip b64_alphabet [0..<64]) (b64_alphabet ! (k mod 64)) = Some ([0..<64] ! (k mod 64))"
    by (rule map_of_zip_nth) (simp_all add: b64_alphabet_length b64_alphabet_distinct)
  then show ?thesis
    by (simp add: b64_index_def b64_char_def)
qed

lemma b64_pad_not_in_alphabet: "b64_pad \<notin> set b64_alphabet"
  by (simp add: b64_alphabet_def ascii_def b64_pad_def)

lemma b64_char_not_pad: "b64_char k \<noteq> b64_pad"
proof -
  have "b64_char k \<in> set b64_alphabet"
    by (simp add: b64_char_def b64_alphabet_length)
  with b64_pad_not_in_alphabet show ?thesis by metis
qed

lemma sextets_join:
  fixes n :: nat
  assumes "n < 16777216"
  shows "((n div 262144 mod 64 * 64 + n div 4096 mod 64) * 64 + n div 64 mod 64) * 64 + n mod 64 = n"
proof -
  have a: "n div 262144 = n div 4096 div 64" by (simp add: div_mult2_eq)
  have b: "n div 4096 = n div 64 div 64" by (simp add: div_mult2_eq)
  have c: "n div 262144 < 64" using assms by simp
  have "n div 262144 mod 64 * 64 + n div 4096 mod 64 = n div 4096"
    using c by (simp add: a)
  moreover have "n div 4096 * 64 + n div 64 mod 64 = n div 64"
    by (simp add: b)
  ultimately show ?thesis by simp
qed



lemma sextets_join3:
  fixes n :: nat
  assumes "n < 16777216"
  shows "(n div 262144 mod 64 * 64 + n div 4096 mod 64) * 64 + n div 64 mod 64 = n div 64"
proof -
  have a: "n div 262144 = n div 4096 div 64" by (simp add: div_mult2_eq)
  have b: "n div 4096 = n div 64 div 64" by (simp add: div_mult2_eq)
  have c: "n div 262144 < 64" using assms by simp
  have "n div 262144 mod 64 * 64 + n div 4096 mod 64 = n div 4096"
    using c by (simp add: a)
  moreover have "n div 4096 * 64 + n div 64 mod 64 = n div 64"
    by (simp add: b)
  ultimately show ?thesis by simp
qed

lemma sextets_join2:
  fixes n :: nat
  assumes "n < 16777216"
  shows "n div 262144 mod 64 * 64 + n div 4096 mod 64 = n div 4096"
proof -
  have a: "n div 262144 = n div 4096 div 64" by (simp add: div_mult2_eq)
  have c: "n div 262144 < 64" using assms by simp
  show ?thesis using c by (simp add: a)
qed

lemma group_div_hi:
  fixes x y z :: nat
  assumes "y < 256" "z < 256"
  shows "(x * 65536 + y * 256 + z) div 65536 = x"
  using assms by simp

lemma group_div_mid:
  fixes x y z :: nat
  assumes "z < 256"
  shows "(x * 65536 + y * 256 + z) div 256 = x * 256 + y"
  using assms by simp

lemma byte_of_nat_eqI: "n mod 256 = unat (b::byte) \<Longrightarrow> of_nat n = b"
  by (simp add: word_unat_eq_iff unat_of_nat)

lemma byte_low: "(of_nat (x * 256 + unat (b::byte)) :: byte) = b"
proof (rule byte_of_nat_eqI)
  have "unat b < 256" using unsigned_less [of b, where ?'a = nat] by simp
  then show "(x * 256 + unat b) mod 256 = unat b" by simp
qed

lemma byte_low2: "(of_nat (x * 65536 + y * 256 + unat (b::byte)) :: byte) = b"
proof -
  have "x * 65536 + y * 256 + unat b = (x * 256 + y) * 256 + unat b" by simp
  then show ?thesis by (simp only: byte_low)
qed

lemma base64_roundtrip: "base64_decode (base64_encode bs) = Some bs"
proof (induction bs rule: base64_encode.induct)
  case 1
  show ?case by simp
next
  case (2 a)
  have la: "unat a < 256" using unsigned_less [of a, where ?'a = nat] by simp
  define n where "n = unat a * 65536"
  have n: "n < 16777216" using la by (simp add: n_def)
  have d: "n div 4096 = unat a * 16" by (simp add: n_def)
  have "n div 262144 mod 64 * 64 + n div 4096 mod 64 = n div 4096"
    by (rule sextets_join2 [OF n])
  also have "\<dots> = unat a * 16" by (rule d)
  finally have m: "n div 262144 mod 64 * 64 + n div 4096 mod 64 = unat a * 16" .
  have "base64_decode (base64_encode [a]) =
      Some [of_nat ((n div 262144 mod 64 * 64 + n div 4096 mod 64) div 16)]"
    unfolding n_def
    by (simp add: b64_index_char b64_char_not_pad Let_def
          del: distrib_right_numeral distrib_left_numeral)
  then show ?case by (simp only: m) simp
next
  case (3 a b)
  have la: "unat a < 256" using unsigned_less [of a, where ?'a = nat] by simp
  have lb: "unat b < 256" using unsigned_less [of b, where ?'a = nat] by simp
  define n where "n = unat a * 65536 + unat b * 256"
  define m where "m = (n div 262144 mod 64 * 64 + n div 4096 mod 64) * 64 + n div 64 mod 64"
  have n: "n < 16777216" using la lb by (simp add: n_def)
  have d: "n div 64 = unat a * 1024 + unat b * 4" by (simp add: n_def)
  have "m = n div 64" unfolding m_def by (rule sextets_join3 [OF n])
  also have "\<dots> = unat a * 1024 + unat b * 4" by (rule d)
  finally have m: "m = unat a * 1024 + unat b * 4" .
  have r1: "(of_nat (m div 1024) :: byte) = a" using lb by (simp add: m)
  have "m div 4 = unat a * 256 + unat b" by (simp add: m)
  then have r2: "(of_nat (m div 4) :: byte) = b" by (simp only: byte_low)
  have "base64_decode (base64_encode [a, b]) = Some [of_nat (m div 1024), of_nat (m div 4)]"
    unfolding m_def n_def
    by (simp add: b64_index_char b64_char_not_pad Let_def
          del: distrib_right_numeral distrib_left_numeral)
  then show ?case by (simp only: r1 r2)
next
  case (4 a b c rest)
  have la: "unat a < 256" using unsigned_less [of a, where ?'a = nat] by simp
  have lb: "unat b < 256" using unsigned_less [of b, where ?'a = nat] by simp
  have lc: "unat c < 256" using unsigned_less [of c, where ?'a = nat] by simp
  define n where "n = unat a * 65536 + unat b * 256 + unat c"
  define m where
    "m = ((n div 262144 mod 64 * 64 + n div 4096 mod 64) * 64 + n div 64 mod 64) * 64 + n mod 64"
  have n: "n < 16777216" using la lb lc by (simp add: n_def)
  have m: "m = n" unfolding m_def by (rule sextets_join [OF n])
  have "m div 65536 = unat a" unfolding m n_def by (rule group_div_hi [OF lb lc])
  then have r1: "(of_nat (m div 65536) :: byte) = a" by simp
  have "m div 256 = unat a * 256 + unat b" unfolding m n_def by (rule group_div_mid [OF lc])
  then have r2: "(of_nat (m div 256) :: byte) = b" by (simp only: byte_low)
  have r3: "(of_nat m :: byte) = c" by (simp only: m n_def byte_low2)
  have "base64_decode (base64_encode (a # b # c # rest)) =
      Some (of_nat (m div 65536) # of_nat (m div 256) # of_nat m # rest)"
    unfolding m_def n_def using 4
    by (simp add: b64_index_char b64_char_not_pad Let_def
          del: distrib_right_numeral distrib_left_numeral)
  then show ?case by (simp only: r1 r2 r3)
qed

subsection \<open>Decoding inverts encoding on well-formed strings\<close>

lemma unat_byte_of_nat: "n < 256 \<Longrightarrow> unat (of_nat n :: byte) = n"
  by (simp add: unat_of_nat)

lemma lead2_mod: "a < 32 \<Longrightarrow> (192 + a) mod 32 = (a::nat)"
  using mod_mult_self3 [of 6 32 a] by simp
lemma lead3_mod: "a < 16 \<Longrightarrow> (224 + a) mod 16 = (a::nat)"
  using mod_mult_self3 [of 14 16 a] by simp
lemma lead4_mod: "a < 8 \<Longrightarrow> (240 + a) mod 8 = (a::nat)"
  using mod_mult_self3 [of 30 8 a] by simp
lemma cont_mod: "b < 64 \<Longrightarrow> (128 + b) mod 64 = (b::nat)"
  using mod_mult_self3 [of 2 64 b] by simp

lemma start1:
  assumes "unat x = a" "a < 128"
  shows "utf8_scalars cp 0 lo hi (x # bs) = a # utf8_scalars 0 0 0x80 0xBF bs"
  by (subst utf8_scalars.simps) (use assms in \<open>simp add: Let_def del: utf8_scalars.simps\<close>)

lemma start2:
  assumes "unat x = 0xC0 + a" "2 \<le> a" "a < 32"
  shows "utf8_scalars cp 0 lo hi (x # bs) = utf8_scalars a 1 0x80 0xBF bs"
  by (subst utf8_scalars.simps)
     (use assms in \<open>simp add: Let_def lead2_mod del: utf8_scalars.simps\<close>)

lemma start3:
  assumes "unat x = 0xE0 + a" "a < 16"
  shows "utf8_scalars cp 0 lo hi (x # bs)
    = utf8_scalars a 2 (if a = 0 then 0xA0 else 0x80) (if a = 13 then 0x9F else 0xBF) bs"
  by (subst utf8_scalars.simps)
     (use assms in \<open>simp add: Let_def lead3_mod del: utf8_scalars.simps\<close>)

lemma start4:
  assumes "unat x = 0xF0 + a" "a < 5"
  shows "utf8_scalars cp 0 lo hi (x # bs)
    = utf8_scalars a 3 (if a = 0 then 0x90 else 0x80) (if a = 4 then 0x8F else 0xBF) bs"
  by (subst utf8_scalars.simps)
     (use assms in \<open>simp add: Let_def lead4_mod del: utf8_scalars.simps\<close>)

lemma cont_more:
  assumes "unat y = 0x80 + b" "b < 64" "lo \<le> 0x80 + b" "0x80 + b \<le> hi" "1 < need"
  shows "utf8_scalars cp need lo hi (y # bs)
    = utf8_scalars (cp * 64 + b) (need - 1) 0x80 0xBF bs"
  by (subst utf8_scalars.simps)
     (use assms in \<open>simp add: Let_def cont_mod del: utf8_scalars.simps\<close>)

lemma cont_last:
  assumes "unat y = 0x80 + b" "b < 64" "lo \<le> 0x80 + b" "0x80 + b \<le> hi" "need = 1"
  shows "utf8_scalars cp need lo hi (y # bs)
    = (cp * 64 + b) # utf8_scalars 0 0 0x80 0xBF bs"
  by (subst utf8_scalars.simps)
     (use assms in \<open>simp add: Let_def cont_mod del: utf8_scalars.simps\<close>)

lemma dec2:
  assumes "unat x = 0xC0 + a" "unat y = 0x80 + b" "2 \<le> a" "a < 32" "b < 64"
  shows "utf8_scalars 0 0 0x80 0xBF (x # y # rest)
           = (a * 64 + b) # utf8_scalars 0 0 0x80 0xBF rest"
proof -
  have "utf8_scalars 0 0 0x80 0xBF (x # y # rest) = utf8_scalars a 1 0x80 0xBF (y # rest)"
    by (rule start2 [OF assms(1) assms(3) assms(4)])
  also have "\<dots> = (a * 64 + b) # utf8_scalars 0 0 0x80 0xBF rest"
    by (rule cont_last [OF assms(2) assms(5)]) (use assms(5) in auto)
  finally show ?thesis .
qed

lemma dec3:
  assumes "unat x = 0xE0 + a" "unat y = 0x80 + b" "unat z = 0x80 + c"
    and "a < 16" "b < 64" "c < 64" "a = 0 \<longrightarrow> 32 \<le> b" "a = 13 \<longrightarrow> b < 32"
  shows "utf8_scalars 0 0 0x80 0xBF (x # y # z # rest)
           = ((a * 64 + b) * 64 + c) # utf8_scalars 0 0 0x80 0xBF rest"
proof -
  have "utf8_scalars 0 0 0x80 0xBF (x # y # z # rest)
      = utf8_scalars a 2 (if a = 0 then 0xA0 else 0x80)
          (if a = 13 then 0x9F else 0xBF) (y # z # rest)"
    by (rule start3 [OF assms(1) assms(4)])
  also have "\<dots> = utf8_scalars (a * 64 + b) (2 - 1) 0x80 0xBF (z # rest)"
    by (rule cont_more [OF assms(2) assms(5)]) (use assms(5) assms(7) assms(8) in auto)
  also have "\<dots> = ((a * 64 + b) * 64 + c) # utf8_scalars 0 0 0x80 0xBF rest"
    by (rule cont_last [OF assms(3) assms(6)]) (use assms(6) in auto)
  finally show ?thesis .
qed

lemma dec4:
  assumes "unat x = 0xF0 + a" "unat y = 0x80 + b" "unat z = 0x80 + c" "unat w = 0x80 + d"
    and "a < 5" "b < 64" "c < 64" "d < 64" "a = 0 \<longrightarrow> 16 \<le> b" "a = 4 \<longrightarrow> b < 16"
  shows "utf8_scalars 0 0 0x80 0xBF (x # y # z # w # rest)
           = (((a * 64 + b) * 64 + c) * 64 + d) # utf8_scalars 0 0 0x80 0xBF rest"
proof -
  have "utf8_scalars 0 0 0x80 0xBF (x # y # z # w # rest)
      = utf8_scalars a 3 (if a = 0 then 0x90 else 0x80)
          (if a = 4 then 0x8F else 0xBF) (y # z # w # rest)"
    by (rule start4 [OF assms(1) assms(5)])
  also have "\<dots> = utf8_scalars (a * 64 + b) (3 - 1) 0x80 0xBF (z # w # rest)"
    by (rule cont_more [OF assms(2) assms(6)]) (use assms(6) assms(9) assms(10) in auto)
  also have "\<dots> = utf8_scalars ((a * 64 + b) * 64 + c) (3 - 1 - 1) 0x80 0xBF (w # rest)"
    by (rule cont_more [OF assms(3) assms(7)]) (use assms(7) in auto)
  also have "\<dots> = (((a * 64 + b) * 64 + c) * 64 + d) # utf8_scalars 0 0 0x80 0xBF rest"
    by (rule cont_last [OF assms(4) assms(8)]) (use assms(8) in auto)
  finally show ?thesis .
qed

lemma decode_scalar:
  assumes "isScalar cp"
  shows "utf8_scalars 0 0 0x80 0xBF (utf8_bytes cp @ rest) = cp # utf8_scalars 0 0 0x80 0xBF rest"
proof -
  consider (one) "cp < 0x80" | (two) "0x80 \<le> cp" "cp < 0x800"
    | (three) "0x800 \<le> cp" "cp < 0x10000" | (four) "0x10000 \<le> cp"
    by linarith
  then show ?thesis
  proof cases
    case one
    have u: "unat (of_nat cp :: byte) = cp"
      by (rule unat_byte_of_nat) (use one in simp)
    have "utf8_bytes cp @ rest = of_nat cp # rest"
      using one by (simp add: utf8_bytes_def)
    then show ?thesis using start1 [OF u one] by simp
  next
    case two
    define a where "a = cp div 64"
    define b where "b = cp mod 64"
    have a: "2 \<le> a" "a < 32" using two by (simp_all add: a_def)
    have b: "b < 64" by (simp add: b_def)
    have cp: "a * 64 + b = cp" by (simp add: a_def b_def)
    have ux: "unat (of_nat (0xC0 + a) :: byte) = 0xC0 + a"
      by (rule unat_byte_of_nat) (use a in simp)
    have uy: "unat (of_nat (0x80 + b) :: byte) = 0x80 + b"
      by (rule unat_byte_of_nat) (use b in simp)
    have "utf8_bytes cp @ rest = of_nat (0xC0 + a) # of_nat (0x80 + b) # rest"
      using two by (simp add: utf8_bytes_def a_def b_def del: of_nat_add)
    then show ?thesis using dec2 [OF ux uy a b, of rest] cp by simp
  next
    case three
    define q where "q = cp div 64"
    define a where "a = cp div 4096"
    define b where "b = cp div 64 mod 64"
    define c where "c = cp mod 64"
    have "cp div 4096 = cp div 64 div 64" by (simp add: div_mult2_eq)
    then have qa: "q = a * 64 + b" by (simp add: q_def a_def b_def)
    have cq: "cp = q * 64 + c" by (simp add: q_def c_def)
    have a: "a < 16" using three by (simp add: a_def)
    have b: "b < 64" by (simp add: b_def)
    have c: "c < 64" by (simp add: c_def)
    have lo: "a = 0 \<longrightarrow> 32 \<le> b" using three(1) qa cq c by auto
    have "cp < 0xD800 \<or> 0xE000 \<le> cp" using assms three by (simp add: isScalar_def)
    then have hi: "a = 13 \<longrightarrow> b < 32" using qa cq c b by auto
    have cp: "(a * 64 + b) * 64 + c = cp" using qa cq by simp
    have ux: "unat (of_nat (0xE0 + a) :: byte) = 0xE0 + a"
      by (rule unat_byte_of_nat) (use a in simp)
    have uy: "unat (of_nat (0x80 + b) :: byte) = 0x80 + b"
      by (rule unat_byte_of_nat) (use b in simp)
    have uz: "unat (of_nat (0x80 + c) :: byte) = 0x80 + c"
      by (rule unat_byte_of_nat) (use c in simp)
    have "utf8_bytes cp @ rest = of_nat (0xE0 + a) # of_nat (0x80 + b) # of_nat (0x80 + c) # rest"
      using three by (simp add: utf8_bytes_def a_def b_def c_def del: of_nat_add)
    then show ?thesis using dec3 [OF ux uy uz a b c lo hi, of rest] cp by simp
  next
    case four
    have top: "cp < 0x110000" using assms four by (simp add: isScalar_def)
    define r where "r = cp div 4096"
    define a where "a = cp div 262144"
    define b where "b = cp div 4096 mod 64"
    define c where "c = cp div 64 mod 64"
    define d where "d = cp mod 64"
    have "cp div 262144 = cp div 4096 div 64" by (simp add: div_mult2_eq)
    then have ra: "r = a * 64 + b" by (simp add: r_def a_def b_def)
    have r16: "16 \<le> r" using four by (simp add: r_def)
    have r272: "r < 272" using top by (simp add: r_def)
    have a: "a < 5" using top by (simp add: a_def)
    have b: "b < 64" by (simp add: b_def)
    have c: "c < 64" by (simp add: c_def)
    have d: "d < 64" by (simp add: d_def)
    have lo: "a = 0 \<longrightarrow> 16 \<le> b" using ra r16 by auto
    have hi: "a = 4 \<longrightarrow> b < 16" using ra r272 by auto
    have "cp < 16777216" using top by simp
    then have "((cp div 262144 mod 64 * 64 + cp div 4096 mod 64) * 64 + cp div 64 mod 64) * 64
        + cp mod 64 = cp"
      by (rule sextets_join)
    moreover have "cp div 262144 mod 64 = a" using a by (simp add: a_def)
    ultimately have cp: "((a * 64 + b) * 64 + c) * 64 + d = cp"
      by (simp only: a_def b_def c_def d_def)
    have ux: "unat (of_nat (0xF0 + a) :: byte) = 0xF0 + a"
      by (rule unat_byte_of_nat) (use a in simp)
    have uy: "unat (of_nat (0x80 + b) :: byte) = 0x80 + b"
      by (rule unat_byte_of_nat) (use b in simp)
    have uz: "unat (of_nat (0x80 + c) :: byte) = 0x80 + c"
      by (rule unat_byte_of_nat) (use c in simp)
    have uw: "unat (of_nat (0x80 + d) :: byte) = 0x80 + d"
      by (rule unat_byte_of_nat) (use d in simp)
    have "utf8_bytes cp @ rest
        = of_nat (0xF0 + a) # of_nat (0x80 + b) # of_nat (0x80 + c) # of_nat (0x80 + d) # rest"
      using four by (simp add: utf8_bytes_def a_def b_def c_def d_def del: of_nat_add)
    then show ?thesis using dec4 [OF ux uy uz uw a b c d lo hi, of rest] cp by simp
  qed
qed

lemma toString_scalar:
  "isScalar cp \<Longrightarrow> toString_utf8 (utf8_bytes cp @ rest) = utf16_units cp @ toString_utf8 rest"
  by (simp only: toString_utf8_def decode_scalar list.map concat.simps)

lemma unit_bound: "unat (u :: 16 word) < 65536"
  using unsigned_less [of u, where ?'a = nat] by simp

lemma units_single:
  assumes "\<not> is_high_surrogate u" "\<not> is_low_surrogate u"
  shows "isScalar (unat u)" and "utf16_units (unat u) = [u]"
proof -
  show "isScalar (unat u)"
    using assms unit_bound [of u]
    by (auto simp add: isScalar_def is_high_surrogate_def is_low_surrogate_def)
  show "utf16_units (unat u) = [u]"
    using unit_bound [of u] by (simp add: utf16_units_def)
qed

lemma units_pair:
  assumes "is_high_surrogate u" "is_low_surrogate v"
  shows "isScalar (0x10000 + (unat u - 0xD800) * 1024 + (unat v - 0xDC00))"
    and "utf16_units (0x10000 + (unat u - 0xD800) * 1024 + (unat v - 0xDC00)) = [u, v]"
proof -
  define h where "h = unat u - 0xD800"
  define l where "l = unat v - 0xDC00"
  have h: "h < 1024" "unat u = 0xD800 + h"
    using assms(1) by (auto simp add: h_def is_high_surrogate_def)
  have l: "l < 1024" "unat v = 0xDC00 + l"
    using assms(2) by (auto simp add: l_def is_low_surrogate_def)
  show "isScalar (0x10000 + (unat u - 0xD800) * 1024 + (unat v - 0xDC00))"
    using h(1) l(1) unfolding h_def [symmetric] l_def [symmetric]
    by (simp add: isScalar_def)
  have d: "(h * 1024 + l) div 1024 = h" using l(1) by simp
  have m: "(h * 1024 + l) mod 1024 = l" using l(1) by simp
  have hu: "(of_nat (0xD800 + h) :: 16 word) = u"
    by (simp only: h(2) [symmetric]) simp
  have lv: "(of_nat (0xDC00 + l) :: 16 word) = v"
    by (simp only: l(2) [symmetric]) simp
  have "utf16_units (0x10000 + h * 1024 + l) = [of_nat (0xD800 + h), of_nat (0xDC00 + l)]"
    using l(1) by (simp add: utf16_units_def d m del: of_nat_add)
  then show "utf16_units (0x10000 + (unat u - 0xD800) * 1024 + (unat v - 0xDC00)) = [u, v]"
    unfolding h_def [symmetric] l_def [symmetric] by (simp only: hu lv)
qed

lemma from_utf8_single:
  assumes "\<not> is_high_surrogate u" "\<not> is_low_surrogate u"
  shows "from_utf8 (u # rest) = utf8_bytes (unat u) @ from_utf8 rest"
  using assms by (cases rest) simp_all

lemma decode_encode:
  "wellFormed s \<Longrightarrow> toString_utf8 (from_utf8 s) = s"
proof (induction s rule: wellFormed.induct)
  case 1
  show ?case by (simp add: toString_utf8_def)
next
  case (2 u)
  then have n: "\<not> is_high_surrogate u" "\<not> is_low_surrogate u" by simp_all
  have "toString_utf8 (from_utf8 [u]) = toString_utf8 (utf8_bytes (unat u) @ [])"
    using n by simp
  also have "\<dots> = utf16_units (unat u) @ toString_utf8 []"
    by (rule toString_scalar [OF units_single(1) [OF n]])
  also have "\<dots> = [u]"
    by (simp add: units_single(2) [OF n] toString_utf8_def)
  finally show ?case .
next
  case (3 u v rest)
  show ?case
  proof (cases "is_high_surrogate u")
    case True
    with "3.prems" have low: "is_low_surrogate v" and wf: "wellFormed rest" by simp_all
    have ih: "toString_utf8 (from_utf8 rest) = rest"
      using "3.IH"(1) [OF True] wf by simp
    have "toString_utf8 (from_utf8 (u # v # rest))
        = toString_utf8 (utf8_bytes (0x10000 + (unat u - 0xD800) * 1024 + (unat v - 0xDC00))
            @ from_utf8 rest)"
      using True low by simp
    also have "\<dots> = utf16_units (0x10000 + (unat u - 0xD800) * 1024 + (unat v - 0xDC00))
        @ toString_utf8 (from_utf8 rest)"
      by (rule toString_scalar [OF units_pair(1) [OF True low]])
    also have "\<dots> = u # v # rest"
      by (simp only: units_pair(2) [OF True low] ih) simp
    finally show ?thesis .
  next
    case False
    with "3.prems" have n: "\<not> is_high_surrogate u" "\<not> is_low_surrogate u"
      and wf: "wellFormed (v # rest)" by simp_all
    have ih: "toString_utf8 (from_utf8 (v # rest)) = v # rest"
      using "3.IH"(2) [OF False] wf by simp
    have "toString_utf8 (from_utf8 (u # v # rest))
        = toString_utf8 (utf8_bytes (unat u) @ from_utf8 (v # rest))"
      by (simp only: from_utf8_single [OF n])
    also have "\<dots> = utf16_units (unat u) @ toString_utf8 (from_utf8 (v # rest))"
      by (rule toString_scalar [OF units_single(1) [OF n]])
    also have "\<dots> = u # v # rest"
      by (simp only: units_single(2) [OF n] ih) simp
    finally show ?thesis .
  qed
qed

subsection \<open>No octet above F4 in encoded text\<close>

lemma byte_le: "n \<le> 0xF4 \<Longrightarrow> unat (of_nat n :: byte) \<le> 0xF4"
  by (simp add: unat_byte_of_nat)

lemma utf8_bytes_bound:
  assumes "cp < 0x110000" "b \<in> set (utf8_bytes cp)"
  shows "unat b \<le> 0xF4"
proof -
  have c2: "cp < 0x800 \<Longrightarrow> 0xC0 + cp div 64 \<le> 0xF4" by simp
  have c3: "cp < 0x10000 \<Longrightarrow> 0xE0 + cp div 4096 \<le> 0xF4" by simp
  have c4: "0xF0 + cp div 262144 \<le> 0xF4" using assms(1) by simp
  have m1: "0x80 + cp mod 64 \<le> 0xF4" by simp
  have m2: "0x80 + cp div 64 mod 64 \<le> 0xF4" by simp
  have m3: "0x80 + cp div 4096 mod 64 \<le> 0xF4" by simp
  have c1: "cp < 0x80 \<Longrightarrow> cp \<le> 0xF4" by simp
  from assms(2) consider
      "cp < 0x80" "b = of_nat cp"
    | "cp < 0x800" "b = of_nat (0xC0 + cp div 64)"
    | "cp < 0x10000" "b = of_nat (0xE0 + cp div 4096)"
    | "b = of_nat (0xF0 + cp div 262144)"
    | "b = of_nat (0x80 + cp mod 64)"
    | "b = of_nat (0x80 + cp div 64 mod 64)"
    | "b = of_nat (0x80 + cp div 4096 mod 64)"
    by (auto simp add: utf8_bytes_def simp del: of_nat_add split: if_splits)
  then show ?thesis
  proof cases
    case 1 then show ?thesis using byte_le [OF c1] by simp
  next
    case 2 then show ?thesis using byte_le [OF c2] by simp
  next
    case 3 then show ?thesis using byte_le [OF c3] by simp
  next
    case 4 then show ?thesis using byte_le [OF c4] by simp
  next
    case 5 then show ?thesis using byte_le [OF m1] by simp
  next
    case 6 then show ?thesis using byte_le [OF m2] by simp
  next
    case 7 then show ?thesis using byte_le [OF m3] by simp
  qed
qed

lemma pair_bound:
  assumes "is_high_surrogate u" "is_low_surrogate v"
  shows "0x10000 + (unat u - 0xD800) * 1024 + (unat v - 0xDC00) < 0x110000"
  using units_pair(1) [OF assms] by (simp add: isScalar_def)

lemma unit_bound2: "unat (u :: 16 word) < 0x110000"
  using unit_bound [of u] by simp

lemma from_utf8_bound: "b \<in> set (from_utf8 s) \<Longrightarrow> unat b \<le> 0xF4"
proof (induction s rule: from_utf8.induct)
  case 1
  then show ?case by simp
next
  case (2 u)
  have f: "(0xFFFD::nat) < 0x110000" by simp
  from 2 show ?case
    using utf8_bytes_bound [OF f, of b] utf8_bytes_bound [OF unit_bound2, of b u]
    by (auto split: if_splits)
next
  case (3 u v rest)
  have f: "(0xFFFD::nat) < 0x110000" by simp
  show ?case
  proof (cases "is_high_surrogate u \<and> is_low_surrogate v")
    case True
    with "3.prems" have "b \<in> set (utf8_bytes (0x10000 + (unat u - 0xD800) * 1024 + (unat v - 0xDC00)))
        \<or> b \<in> set (from_utf8 rest)" by auto
    then show ?thesis
      using utf8_bytes_bound [OF pair_bound, of u v b] True "3.IH"(1) by blast
  next
    case False
    note nopair = this
    show ?thesis
    proof (cases "is_high_surrogate u \<or> is_low_surrogate u")
      case True
      with nopair "3.prems" have "b \<in> set (utf8_bytes 0xFFFD) \<or> b \<in> set (from_utf8 (v # rest))"
        by auto
      then show ?thesis
        using utf8_bytes_bound [OF f, of b] "3.IH"(2) [OF nopair True] by blast
    next
      case False
      with nopair "3.prems" have "b \<in> set (utf8_bytes (unat u)) \<or> b \<in> set (from_utf8 (v # rest))"
        by auto
      then show ?thesis
        using utf8_bytes_bound [OF unit_bound2, of b u] "3.IH"(3) [OF nopair False] by blast
    qed
  qed
qed

lemma not_utf8:
  assumes "b \<in> set message" "0xF4 < unat b"
  shows "from_utf8 (toString_utf8 message) \<noteq> message"
proof
  assume "from_utf8 (toString_utf8 message) = message"
  then have "b \<in> set (from_utf8 (toString_utf8 message))" using assms(1) by simp
  then have "unat b \<le> 0xF4" by (rule from_utf8_bound)
  with assms(2) show False by simp
qed

section \<open>Properties of the message handler\<close>

lemmas handler_defs = onMessage_def saveMessage_def encodePayload_def saveEnabled_def Let_def

lemma publishCalls_append: "publishCalls (xs @ ys) = publishCalls xs @ publishCalls ys"
  by (induction xs rule: publishCalls.induct) simp_all

lemma saveMessage_no_publish: "publishCalls (fst (saveMessage a st topicName message pkt)) = []"
  by (simp add: saveMessage_def Let_def split: option.split prod.split)

lemma onMessage_publishCalls:
  "publishCalls (fst (onMessage dest saveToFile a st topicName message pkt)) =
     [(topicName, message, min (qos pkt) (qosMax dest), forwardRetain dest \<and> retain pkt)]"
proof -
  obtain fx st' where s: "saveMessage a st topicName message pkt = (fx, st')"
    by (cases "saveMessage a st topicName message pkt")
  then have "publishCalls fx = []"
    using saveMessage_no_publish [of a st topicName message pkt] by simp
  then show ?thesis
    by (simp add: onMessage_def Let_def s publishCalls_append)
qed

text \<open>
  C1. For an inbound QoS and a ceiling \<open>qosMax\<close> in \<open>{0, 1, 2}\<close>, the handler makes one
  publish call and its QoS is the minimum of the two, again in \<open>{0, 1, 2}\<close>; an inbound
  QoS of 0 is published with QoS 0 whatever the ceiling.
\<close>

theorem qos_clamp:
  assumes "qos pkt \<in> {0, 1, 2}" and "qosMax dest \<in> {0, 1, 2}"
  shows "map (\<lambda>(t, m, q, r). q)
           (publishCalls (fst (onMessage dest saveToFile a st topicName message pkt)))
           = [min (qos pkt) (qosMax dest)]
         \<and> min (qos pkt) (qosMax dest) \<in> {0, 1, 2}
         \<and> (qos pkt = 0 \<longrightarrow>
              map (\<lambda>(t, m, q, r). q)
                (publishCalls (fst (onMessage dest saveToFile a st topicName message pkt))) = [0])"
  using assms by (auto simp add: onMessage_publishCalls)

theorem qos_clamp_witness:
  "qos (inbound 2 True) \<in> {0, 1, 2} \<and> qosMax (policy 1 True) \<in> {0, 1, 2}
   \<and> map (\<lambda>(t, m, q, r). q)
        (publishCalls (fst (onMessage (policy 1 True) auditOn quiet opened (ascii ''t/1'')
           [0x68, 0x69] (inbound 2 True)))) = [1]"
proof -
  have q: "qos (inbound 2 True) \<in> {0, 1, 2}" by (simp add: inbound_def)
  have m: "qosMax (policy 1 True) \<in> {0, 1, 2}" by (simp add: policy_def)
  show ?thesis
    using q m qos_clamp [OF q m, of auditOn quiet opened "ascii ''t/1''" "[0x68, 0x69]"]
    by (simp add: inbound_def policy_def)
qed

text \<open>
  C2. The retain flag of the publish call is \<open>forwardRetain\<close> and the inbound retain
  flag together: never set when \<open>forwardRetain\<close> is false, the inbound flag when it is
  true.
\<close>

theorem retain_policy:
  "map (\<lambda>(t, m, q, r). r)
     (publishCalls (fst (onMessage dest saveToFile a st topicName message pkt)))
     = [forwardRetain dest \<and> retain pkt]
   \<and> (\<not> forwardRetain dest \<longrightarrow>
        map (\<lambda>(t, m, q, r). r)
          (publishCalls (fst (onMessage dest saveToFile a st topicName message pkt))) = [False])
   \<and> (forwardRetain dest \<longrightarrow>
        map (\<lambda>(t, m, q, r). r)
          (publishCalls (fst (onMessage dest saveToFile a st topicName message pkt)))
          = [retain pkt])"
  by (simp add: onMessage_publishCalls)

theorem retain_policy_witness:
  "\<not> forwardRetain (policy 1 False)
   \<and> map (\<lambda>(t, m, q, r). r)
        (publishCalls (fst (onMessage (policy 1 False) auditOn quiet opened (ascii ''t/1'')
           [0x68, 0x69] (inbound 2 True)))) = [False]
   \<and> forwardRetain (policy 1 True)
   \<and> map (\<lambda>(t, m, q, r). r)
        (publishCalls (fst (onMessage (policy 1 True) auditOn quiet opened (ascii ''t/1'')
           [0x68, 0x69] (inbound 2 True)))) = [retain (inbound 2 True)]"
  using retain_policy [of "policy 1 False" auditOn quiet opened "ascii ''t/1''" "[0x68, 0x69]"
          "inbound 2 True"]
        retain_policy [of "policy 1 True" auditOn quiet opened "ascii ''t/1''" "[0x68, 0x69]"
          "inbound 2 True"]
  by (simp add: policy_def)

text \<open>
  C5. The publish call carries the topic and the payload bytes of the inbound message as
  they came; only the QoS and the retain flag are computed.
\<close>

theorem topic_and_payload_unchanged:
  "map (\<lambda>(t, m, q, r). (t, m))
     (publishCalls (fst (onMessage dest saveToFile a st topicName message pkt)))
     = [(topicName, message)]"
  by (simp add: onMessage_publishCalls)

lemma encodePayload_decodes:
  "encodePayload a message = Some (encoding, str) \<Longrightarrow>
   (case encoding of Utf8 \<Rightarrow> Some (from_utf8 str) | Base64 \<Rightarrow> base64_decode str) = Some message"
  by (auto simp add: encodePayload_def Let_def base64_roundtrip split: if_splits)

lemma saveMessage_writes:
  "WriterWrite r \<in> set (fst (saveMessage a st topicName message pkt)) \<Longrightarrow>
   decodePayload r = Some message"
proof (cases "encodePayload a message")
  case None
  then show "WriterWrite r \<in> set (fst (saveMessage a st topicName message pkt)) \<Longrightarrow> ?thesis"
    by (simp add: saveMessage_def)
next
  case (Some p)
  obtain encoding str where p: "p = (encoding, str)" by (cases p)
  assume "WriterWrite r \<in> set (fst (saveMessage a st topicName message pkt))"
  then have "payloadEncoding r = encoding \<and> payload r = str"
    using Some p by (auto simp add: saveMessage_def Let_def split: if_splits)
  then show ?thesis
    using encodePayload_decodes [of a message encoding str] Some p
    by (cases encoding) (auto simp add: decodePayload_def)
qed

text \<open>
  C3. Whatever the payload bytes are, every record the handler writes reads back to
  exactly those bytes: its text encoded as UTF-8 when \<open>payloadEncoding\<close> is \<open>utf8\<close>, its
  base64 text decoded when it is \<open>base64\<close>. When auditing is enabled, the writer is open and
  no call throws, a record is written.
\<close>

theorem audit_round_trip:
  "(\<forall>r. WriterWrite r \<in> set (fst (onMessage dest saveToFile a st topicName message pkt))
        \<longrightarrow> decodePayload r = Some message)
   \<and> (saveEnabled saveToFile \<and> writer st \<and> \<not> writerClosed st
        \<and> \<not> utf8Throws a \<and> \<not> base64Throws a \<and> \<not> writeThrows a
      \<longrightarrow> (\<exists>r. WriterWrite r \<in> set (fst (onMessage dest saveToFile a st topicName message pkt))))"
proof (intro conjI allI impI)
  fix r
  assume w: "WriterWrite r \<in> set (fst (onMessage dest saveToFile a st topicName message pkt))"
  obtain fx st' where s: "saveMessage a st topicName message pkt = (fx, st')"
    by (cases "saveMessage a st topicName message pkt")
  from w have "WriterWrite r \<in> set fx"
    by (auto simp add: onMessage_def Let_def s split: if_splits)
  then show "decodePayload r = Some message"
    using saveMessage_writes [of r a st topicName message pkt] s by simp
next
  assume h: "saveEnabled saveToFile \<and> writer st \<and> \<not> writerClosed st
        \<and> \<not> utf8Throws a \<and> \<not> base64Throws a \<and> \<not> writeThrows a"
  then obtain encoding str where e: "encodePayload a message = Some (encoding, str)"
    by (cases "from_utf8 (toString_utf8 message) = message")
       (auto simp add: encodePayload_def Let_def)
  show "\<exists>r. WriterWrite r \<in> set (fst (onMessage dest saveToFile a st topicName message pkt))"
    using h e by (simp add: onMessage_def saveMessage_def Let_def)
qed

theorem audit_round_trip_witness:
  "WriterWrite (auditRecord 1 False Base64 (ascii ''//4AAQ==''))
     \<in> set (fst (onMessage (policy 1 True) auditOn quiet opened (ascii ''t/1'')
                 [0xFF, 0xFE, 0x00, 0x01] (inbound 1 False)))
   \<and> decodePayload (auditRecord 1 False Base64 (ascii ''//4AAQ=='')) = Some [0xFF, 0xFE, 0x00, 0x01]
   \<and> WriterWrite (auditRecord 1 False Utf8 [])
     \<in> set (fst (onMessage (policy 1 True) auditOn quiet opened (ascii ''t/1'') [] (inbound 1 False)))
   \<and> decodePayload (auditRecord 1 False Utf8 []) = Some []
   \<and> WriterWrite (auditRecord 1 False Utf8 [0x61, 0x00, 0x62])
     \<in> set (fst (onMessage (policy 1 True) auditOn quiet opened (ascii ''t/1'')
                 [0x61, 0x00, 0x62] (inbound 1 False)))
   \<and> decodePayload (auditRecord 1 False Utf8 [0x61, 0x00, 0x62]) = Some [0x61, 0x00, 0x62]
   \<and> saveEnabled auditOn \<and> writer opened \<and> \<not> writerClosed opened
   \<and> \<not> utf8Throws quiet \<and> \<not> base64Throws quiet \<and> \<not> writeThrows quiet
   \<and> (\<exists>r. WriterWrite r \<in> set (fst (onMessage (policy 1 True) auditOn quiet opened (ascii ''t/1'')
                 [0xFF, 0xFE, 0x00, 0x01] (inbound 1 False))))"
proof -
  have w1: "WriterWrite (auditRecord 1 False Base64 (ascii ''//4AAQ==''))
     \<in> set (fst (onMessage (policy 1 True) auditOn quiet opened (ascii ''t/1'')
                 [0xFF, 0xFE, 0x00, 0x01] (inbound 1 False)))"
    by (simp add: handler_defs runtime_defs example_defs)
  have w2: "WriterWrite (auditRecord 1 False Utf8 [])
     \<in> set (fst (onMessage (policy 1 True) auditOn quiet opened (ascii ''t/1'') [] (inbound 1 False)))"
    by (simp add: handler_defs runtime_defs example_defs)
  have w3: "WriterWrite (auditRecord 1 False Utf8 [0x61, 0x00, 0x62])
     \<in> set (fst (onMessage (policy 1 True) auditOn quiet opened (ascii ''t/1'')
                 [0x61, 0x00, 0x62] (inbound 1 False)))"
    by (simp add: handler_defs runtime_defs example_defs)
  have c: "saveEnabled auditOn \<and> writer opened \<and> \<not> writerClosed opened
      \<and> \<not> utf8Throws quiet \<and> \<not> base64Throws quiet \<and> \<not> writeThrows quiet"
    by (simp add: saveEnabled_def example_defs)
  note t1 = audit_round_trip [of "policy 1 True" auditOn quiet opened "ascii ''t/1''"
      "[0xFF, 0xFE, 0x00, 0x01]" "inbound 1 False"]
  note t2 = audit_round_trip [of "policy 1 True" auditOn quiet opened "ascii ''t/1''"
      "[]" "inbound 1 False"]
  note t3 = audit_round_trip [of "policy 1 True" auditOn quiet opened "ascii ''t/1''"
      "[0x61, 0x00, 0x62]" "inbound 1 False"]
  from t1 w1 have d1: "decodePayload (auditRecord 1 False Base64 (ascii ''//4AAQ=='')) = Some [0xFF, 0xFE, 0x00, 0x01]"
    by blast
  from t2 w2 have d2: "decodePayload (auditRecord 1 False Utf8 []) = Some []"
    by blast
  from t3 w3 have d3: "decodePayload (auditRecord 1 False Utf8 [0x61, 0x00, 0x62]) = Some [0x61, 0x00, 0x62]"
    by blast
  from t1 c have e: "\<exists>r. WriterWrite r \<in> set (fst (onMessage (policy 1 True) auditOn quiet opened (ascii ''t/1'')
                 [0xFF, 0xFE, 0x00, 0x01] (inbound 1 False)))"
    by blast
  from w1 w2 w3 d1 d2 d3 c e show ?thesis by blast
qed

lemma encode_invalid:
  "\<not> utf8Throws a \<Longrightarrow> \<not> base64Throws a \<Longrightarrow>
   encodePayload a [0xFF, 0xFE, 0x00, 0x01] = Some (Base64, ascii ''//4AAQ=='')"
  by (simp add: encodePayload_def Let_def runtime_defs)

lemma encode_json:
  \<open>\<not> utf8Throws a \<Longrightarrow> encodePayload a (map of_char ''{"a":1}'') = Some (Utf8, ascii ''{"a":1}'')\<close>
  by (simp add: encodePayload_def Let_def runtime_defs)

text \<open>
  C4. With no call throwing, the record's encoding is decided by the round trip alone: a
  payload that decodes to text and encodes back to the same bytes is written as \<open>utf8\<close>
  with the decoded text, any other payload as \<open>base64\<close> with the base64 text of its bytes.
  The UTF-8 bytes of any string without a lone surrogate are of the first kind and are
  written as that string; a payload with an octet above F4 is of the second kind. The bytes
  of \<open>{"a":1}\<close> give \<open>utf8\<close>, the bytes FF FE 00 01 give \<open>base64\<close>.
\<close>

theorem encoding_choice:
  assumes "\<not> utf8Throws a" and "\<not> base64Throws a" and "\<not> writeThrows a"
  shows \<open>(from_utf8 (toString_utf8 message) = message \<longrightarrow>
            fst (saveMessage a st topicName message pkt) =
              [WriterWrite \<lparr>time = now a, topic = topicName, incomingQos = qos pkt,
                 incomingRetain = retain pkt, auditDup = dup pkt,
                 payloadEncoding = Utf8, payload = toString_utf8 message\<rparr>])
         \<and> (from_utf8 (toString_utf8 message) \<noteq> message \<longrightarrow>
            fst (saveMessage a st topicName message pkt) =
              [WriterWrite \<lparr>time = now a, topic = topicName, incomingQos = qos pkt,
                 incomingRetain = retain pkt, auditDup = dup pkt,
                 payloadEncoding = Base64, payload = base64_encode message\<rparr>])
         \<and> (wellFormed s \<longrightarrow>
            fst (saveMessage a st topicName (from_utf8 s) pkt) =
              [WriterWrite \<lparr>time = now a, topic = topicName, incomingQos = qos pkt,
                 incomingRetain = retain pkt, auditDup = dup pkt,
                 payloadEncoding = Utf8, payload = s\<rparr>])
         \<and> ((\<exists>b \<in> set message. 0xF4 < unat b) \<longrightarrow>
            fst (saveMessage a st topicName message pkt) =
              [WriterWrite \<lparr>time = now a, topic = topicName, incomingQos = qos pkt,
                 incomingRetain = retain pkt, auditDup = dup pkt,
                 payloadEncoding = Base64, payload = base64_encode message\<rparr>])
         \<and> encodePayload a (map of_char ''{"a":1}'') = Some (Utf8, ascii ''{"a":1}'')
         \<and> encodePayload a [0xFF, 0xFE, 0x00, 0x01] = Some (Base64, ascii ''//4AAQ=='')\<close>
proof (intro conjI)
  show "from_utf8 (toString_utf8 message) = message \<longrightarrow>
            fst (saveMessage a st topicName message pkt) =
              [WriterWrite \<lparr>time = now a, topic = topicName, incomingQos = qos pkt,
                 incomingRetain = retain pkt, auditDup = dup pkt,
                 payloadEncoding = Utf8, payload = toString_utf8 message\<rparr>]"
    using assms by (simp add: saveMessage_def encodePayload_def Let_def)
  show base: "from_utf8 (toString_utf8 message) \<noteq> message \<longrightarrow>
            fst (saveMessage a st topicName message pkt) =
              [WriterWrite \<lparr>time = now a, topic = topicName, incomingQos = qos pkt,
                 incomingRetain = retain pkt, auditDup = dup pkt,
                 payloadEncoding = Base64, payload = base64_encode message\<rparr>]"
    using assms by (simp add: saveMessage_def encodePayload_def Let_def)
  show "wellFormed s \<longrightarrow>
            fst (saveMessage a st topicName (from_utf8 s) pkt) =
              [WriterWrite \<lparr>time = now a, topic = topicName, incomingQos = qos pkt,
                 incomingRetain = retain pkt, auditDup = dup pkt,
                 payloadEncoding = Utf8, payload = s\<rparr>]"
    using assms by (simp add: saveMessage_def encodePayload_def Let_def decode_encode)
  show "(\<exists>b \<in> set message. 0xF4 < unat b) \<longrightarrow>
            fst (saveMessage a st topicName message pkt) =
              [WriterWrite \<lparr>time = now a, topic = topicName, incomingQos = qos pkt,
                 incomingRetain = retain pkt, auditDup = dup pkt,
                 payloadEncoding = Base64, payload = base64_encode message\<rparr>]"
    using base not_utf8 [of _ message] by blast
  show \<open>encodePayload a (map of_char ''{"a":1}'') = Some (Utf8, ascii ''{"a":1}'')\<close>
    by (rule encode_json [OF assms(1)])
  show "encodePayload a [0xFF, 0xFE, 0x00, 0x01] = Some (Base64, ascii ''//4AAQ=='')"
    by (rule encode_invalid [OF assms(1) assms(2)])
qed

theorem encoding_choice_witness:
  \<open>\<not> utf8Throws quiet \<and> \<not> base64Throws quiet \<and> \<not> writeThrows quiet
   \<and> from_utf8 (toString_utf8 (map of_char ''{"a":1}'')) = map of_char ''{"a":1}''
   \<and> fst (saveMessage quiet opened (ascii ''t/1'') (map of_char ''{"a":1}'') (inbound 1 False)) =
       [WriterWrite (auditRecord 1 False Utf8 (ascii ''{"a":1}''))]
   \<and> from_utf8 (toString_utf8 [0xFF, 0xFE, 0x00, 0x01]) \<noteq> [0xFF, 0xFE, 0x00, 0x01]
   \<and> fst (saveMessage quiet opened (ascii ''t/1'') [0xFF, 0xFE, 0x00, 0x01] (inbound 1 False)) =
       [WriterWrite (auditRecord 1 False Base64 (ascii ''//4AAQ==''))]
   \<and> wellFormed [0xD83D, 0xDE00]
   \<and> fst (saveMessage quiet opened (ascii ''t/1'') (from_utf8 [0xD83D, 0xDE00]) (inbound 1 False)) =
       [WriterWrite (auditRecord 1 False Utf8 [0xD83D, 0xDE00])]
   \<and> (\<exists>b \<in> set [0xFF, 0xFE, 0x00, 0x01 :: byte]. 0xF4 < unat b)\<close>
proof -
  have q: "\<not> utf8Throws quiet" "\<not> base64Throws quiet" "\<not> writeThrows quiet"
    by (simp_all add: quiet_def)
  have j: \<open>from_utf8 (toString_utf8 (map of_char ''{"a":1}'')) = map of_char ''{"a":1}''\<close>
    by (simp add: runtime_defs)
  have i: "from_utf8 (toString_utf8 [0xFF, 0xFE, 0x00, 0x01]) \<noteq> [0xFF, 0xFE, 0x00, 0x01]"
    by (simp add: runtime_defs)
  have w: "wellFormed [0xD83D, 0xDE00]"
    by (simp add: is_high_surrogate_def is_low_surrogate_def)
  have x: "\<exists>b \<in> set [0xFF, 0xFE, 0x00, 0x01 :: byte]. 0xF4 < unat b"
    by simp
  from encoding_choice [OF q, of \<open>map of_char ''{"a":1}''\<close> opened "ascii ''t/1''" "inbound 1 False"] j
  have r1: \<open>fst (saveMessage quiet opened (ascii ''t/1'') (map of_char ''{"a":1}'') (inbound 1 False)) =
       [WriterWrite (auditRecord 1 False Utf8 (ascii ''{"a":1}''))]\<close>
    by (simp add: runtime_defs example_defs)
  from encoding_choice [OF q, of "[0xFF, 0xFE, 0x00, 0x01]" opened "ascii ''t/1''" "inbound 1 False"] i
  have r2: "fst (saveMessage quiet opened (ascii ''t/1'') [0xFF, 0xFE, 0x00, 0x01] (inbound 1 False)) =
       [WriterWrite (auditRecord 1 False Base64 (ascii ''//4AAQ==''))]"
    by (simp add: runtime_defs example_defs)
  from encoding_choice [OF q, of _ opened "ascii ''t/1''" "inbound 1 False" "[0xD83D, 0xDE00]"] w
  have r3: "fst (saveMessage quiet opened (ascii ''t/1'') (from_utf8 [0xD83D, 0xDE00]) (inbound 1 False)) =
       [WriterWrite (auditRecord 1 False Utf8 [0xD83D, 0xDE00])]"
    by (simp add: example_defs)
  from q j i r1 r2 w r3 x show ?thesis by blast
qed

text \<open>
  C7. Whether auditing is enabled, disabled or failing, the handler makes exactly one
  publish call, the same one as with auditing off; it leaves both counters alone and the
  lines already written in place. When building or writing the record throws, the failure
  is logged, nothing is written and the publish call follows.
\<close>

theorem audit_failure_isolation:
  "publishCalls (fst (onMessage dest saveToFile a st topicName message pkt))
     = publishCalls (fst (onMessage dest None a' st' topicName message pkt))
   \<and> length (publishCalls (fst (onMessage dest saveToFile a st topicName message pkt))) = 1
   \<and> nRecentForwarded (snd (onMessage dest saveToFile a st topicName message pkt))
       = nRecentForwarded st
   \<and> nRecentDropped (snd (onMessage dest saveToFile a st topicName message pkt))
       = nRecentDropped st
   \<and> take (length (written st)) (written (snd (onMessage dest saveToFile a st topicName message pkt)))
       = written st
   \<and> (saveEnabled saveToFile \<and> writer st \<and> \<not> writerClosed st
        \<and> (encodePayload a message = None \<or> writeThrows a) \<longrightarrow>
        fst (onMessage dest saveToFile a st topicName message pkt)
          = [LogDebug ''Received message from source MQTT'',
             LogError ''Failed to write message to file'',
             Publish topicName message (min (qos pkt) (qosMax dest))
               (forwardRetain dest \<and> retain pkt)]
        \<and> snd (onMessage dest saveToFile a st topicName message pkt) = st)"
proof (intro conjI)
  show "publishCalls (fst (onMessage dest saveToFile a st topicName message pkt))
     = publishCalls (fst (onMessage dest None a' st' topicName message pkt))"
    by (simp only: onMessage_publishCalls)
  show "length (publishCalls (fst (onMessage dest saveToFile a st topicName message pkt))) = 1"
    by (simp only: onMessage_publishCalls) simp
  show "nRecentForwarded (snd (onMessage dest saveToFile a st topicName message pkt))
       = nRecentForwarded st"
    by (simp add: handler_defs split: option.split prod.split)
  show "nRecentDropped (snd (onMessage dest saveToFile a st topicName message pkt))
       = nRecentDropped st"
    by (simp add: handler_defs split: option.split prod.split)
  show "take (length (written st)) (written (snd (onMessage dest saveToFile a st topicName message pkt)))
       = written st"
    by (simp add: handler_defs split: option.split prod.split)
  show "saveEnabled saveToFile \<and> writer st \<and> \<not> writerClosed st
        \<and> (encodePayload a message = None \<or> writeThrows a) \<longrightarrow>
        fst (onMessage dest saveToFile a st topicName message pkt)
          = [LogDebug ''Received message from source MQTT'',
             LogError ''Failed to write message to file'',
             Publish topicName message (min (qos pkt) (qosMax dest))
               (forwardRetain dest \<and> retain pkt)]
        \<and> snd (onMessage dest saveToFile a st topicName message pkt) = st"
    by (auto simp add: onMessage_def saveMessage_def Let_def split: option.split prod.split)
qed

theorem audit_failure_isolation_witness:
  "saveEnabled auditOn \<and> writer opened \<and> \<not> writerClosed opened
   \<and> (encodePayload (quiet\<lparr>writeThrows := True\<rparr>) [0x68, 0x69] = None
        \<or> writeThrows (quiet\<lparr>writeThrows := True\<rparr>))
   \<and> fst (onMessage (policy 1 True) auditOn (quiet\<lparr>writeThrows := True\<rparr>) opened (ascii ''t/1'')
         [0x68, 0x69] (inbound 2 True))
       = [LogDebug ''Received message from source MQTT'',
          LogError ''Failed to write message to file'',
          Publish (ascii ''t/1'') [0x68, 0x69] 1 True]
   \<and> snd (onMessage (policy 1 True) auditOn (quiet\<lparr>writeThrows := True\<rparr>) opened (ascii ''t/1'')
         [0x68, 0x69] (inbound 2 True)) = opened"
  using audit_failure_isolation [of "policy 1 True" auditOn "quiet\<lparr>writeThrows := True\<rparr>" opened
      "ascii ''t/1''" "[0x68, 0x69]" "inbound 2 True"]
  by (simp add: saveEnabled_def example_defs)

section \<open>Counters\<close>

lemma run_rejected:
  "run dest saveToFile st (replicate n PublishRejected) =
     (replicate n (LogError ''Publishing to destination failed''),
      st\<lparr>nRecentDropped := nRecentDropped st + n\<rparr>)"
proof (induction n arbitrary: st)
  case 0
  show ?case by simp
next
  case (Suc n)
  show ?case by (simp add: Suc onPublishFailed_def)
qed

lemma publishCalls_replicate_log: "publishCalls (replicate n (LogError m)) = []"
  by (induction n) simp_all

lemma createDuplicator_interval:
  "\<not> sourceConnectFails s \<Longrightarrow> \<not> destConnectFails s \<Longrightarrow>
   SetInterval 60000 \<in> set (fst (createDuplicator s source dest saveToFile))"
  by (simp add: createDuplicator_def Let_def logIntervalInSeconds_def split: prod.split)

text \<open>
  C6. A fulfilled publish adds one to \<open>nRecentForwarded\<close> and nothing else; a rejected one
  adds one to \<open>nRecentDropped\<close> and nothing else, and publishes nothing again. After \<open>n\<close>
  rejections in a row \<open>nRecentDropped\<close> has grown by \<open>n\<close> and \<open>nRecentForwarded\<close> is
  unchanged. The interval callback reports both counters and sets both to zero, and it is
  registered with a period of 60 seconds (60000 ms).
\<close>

theorem counters:
  "snd (onPublished st) = st\<lparr>nRecentForwarded := nRecentForwarded st + 1\<rparr>
   \<and> snd (onPublishFailed st) = st\<lparr>nRecentDropped := nRecentDropped st + 1\<rparr>
   \<and> publishCalls (fst (onPublishFailed st)) = []
   \<and> nRecentDropped (snd (run dest saveToFile st (replicate n PublishRejected)))
       = nRecentDropped st + n
   \<and> nRecentForwarded (snd (run dest saveToFile st (replicate n PublishRejected)))
       = nRecentForwarded st
   \<and> publishCalls (fst (run dest saveToFile st (replicate n PublishRejected))) = []
   \<and> fst (onInterval st) = [Report (nRecentForwarded st) (nRecentDropped st)]
   \<and> nRecentForwarded (snd (onInterval st)) = 0
   \<and> nRecentDropped (snd (onInterval st)) = 0
   \<and> (\<not> sourceConnectFails s \<and> \<not> destConnectFails s \<longrightarrow>
        SetInterval (1000 * 60) \<in> set (fst (createDuplicator s source dest saveToFile)))"
  by (simp add: onPublished_def onPublishFailed_def onInterval_def run_rejected
        publishCalls_replicate_log createDuplicator_interval)

theorem counters_witness:
  "\<not> sourceConnectFails calm \<and> \<not> destConnectFails calm
   \<and> SetInterval (1000 * 60)
       \<in> set (fst (createDuplicator calm (sourceOf (ascii ''t/#'') 2) (policy 1 True) auditOn))
   \<and> nRecentDropped (snd (run (policy 1 True) auditOn opened (replicate 3 PublishRejected))) = 3
   \<and> nRecentForwarded (snd (run (policy 1 True) auditOn opened (replicate 3 PublishRejected))) = 0"
  using counters [of opened "policy 1 True" auditOn 3 calm "sourceOf (ascii ''t/#'') 2"]
  by (simp add: calm_def opened_def initial_def)

section \<open>Properties of the configuration\<close>

lemmas config_defs =
  getConfig_def getSourceMqttConfig_def getDestMqttConfig_def getHealthCheckConfig_def
  getSaveToFileConfig_def createMqttClientId_def getMqttAuthFromPaths_def getQoS_def
  getOptionalBooleanWithDefault_def getOptionalNonNegativeInteger_def getOptional_def
  getRequired_def bindE_def parseInt_def is_white_space_def digit_value_def

lemma bindE_Inr: "bindE r f = Inr v \<Longrightarrow> \<exists>x. r = Inr x \<and> f x = Inr v"
  by (cases r) (simp_all add: bindE_def)

lemma getDestMqttConfig_qosMax:
  assumes "getDestMqttConfig e rnd = Inr d"
  shows "getQoS e (ascii ''FORWARD_QOS_MAX'') (ascii ''1'') = Inr (qosMax d)"
proof -
  from assms obtain u a cid cl qm fr
    where q: "getQoS e (ascii ''FORWARD_QOS_MAX'') (ascii ''1'') = Inr qm"
      and d: "d = \<lparr>url = u, clientOptions = \<lparr>clientId = cid, clean = cl, auth = a\<rparr>,
                   qosMax = qm, forwardRetain = fr\<rparr>"
    unfolding getDestMqttConfig_def
    by (auto dest!: bindE_Inr)
  then show ?thesis by simp
qed

lemma getConfig_dest:
  assumes "getConfig e rndSource rndDest = Inr c"
  shows "getDestMqttConfig e rndDest = Inr (destConfig c)"
  using assms unfolding getConfig_def by (auto dest!: bindE_Inr)

lemma getQoS_range: "getQoS e envVar defaultStr = Inr q \<Longrightarrow> q \<in> {0, 1, 2}"
  by (auto simp add: getQoS_def split: option.splits if_splits)

lemma parseInt_one: "parseInt (ascii ''1'') = Some 1"
  by (simp add: parseInt_def is_white_space_def digit_value_def ascii_def)

text \<open>
  C8. When \<open>FORWARD_QOS_MAX\<close> parses to an integer other than 0, 1 or 2, \<open>getQoS\<close> throws
  and so do \<open>getDestMqttConfig\<close> and \<open>getConfig\<close>; nothing is clamped. When the variable
  is absent the ceiling of a configuration that loads is 1. A ceiling that loads is always
  0, 1 or 2.
\<close>

theorem qos_ceiling_validation:
  "(e (ascii ''FORWARD_QOS_MAX'') = Some str \<and> parseInt str = Some n \<and> n \<notin> {0, 1, 2} \<longrightarrow>
      getQoS e (ascii ''FORWARD_QOS_MAX'') (ascii ''1'')
        = Inl (MustBeQoS (ascii ''FORWARD_QOS_MAX'') (ascii ''1''))
      \<and> isl (getDestMqttConfig e rnd) \<and> isl (getConfig e rndSource rndDest))
   \<and> (e (ascii ''FORWARD_QOS_MAX'') = None \<longrightarrow>
      getQoS e (ascii ''FORWARD_QOS_MAX'') (ascii ''1'') = Inr 1
      \<and> (\<forall>d. getDestMqttConfig e rnd = Inr d \<longrightarrow> qosMax d = 1))
   \<and> (\<forall>d. getDestMqttConfig e rnd = Inr d \<longrightarrow> qosMax d \<in> {0, 1, 2})"
proof (intro conjI impI allI)
  assume h: "e (ascii ''FORWARD_QOS_MAX'') = Some str \<and> parseInt str = Some n \<and> n \<notin> {0, 1, 2}"
  then show bad: "getQoS e (ascii ''FORWARD_QOS_MAX'') (ascii ''1'')
        = Inl (MustBeQoS (ascii ''FORWARD_QOS_MAX'') (ascii ''1''))"
    by (simp add: getQoS_def)
  show "isl (getDestMqttConfig e rnd)"
  proof (cases "getDestMqttConfig e rnd")
    case (Inl err)
    then show ?thesis by simp
  next
    case (Inr d)
    then show ?thesis using getDestMqttConfig_qosMax [of e rnd d] bad by simp
  qed
  show "isl (getConfig e rndSource rndDest)"
  proof (cases "getConfig e rndSource rndDest")
    case (Inl err)
    then show ?thesis by simp
  next
    case (Inr c)
    then show ?thesis
      using getConfig_dest [of e rndSource rndDest c]
        getDestMqttConfig_qosMax [of e rndDest "destConfig c"] bad by simp
  qed
next
  assume h: "e (ascii ''FORWARD_QOS_MAX'') = None"
  then show one: "getQoS e (ascii ''FORWARD_QOS_MAX'') (ascii ''1'') = Inr 1"
    by (simp add: getQoS_def parseInt_one)
  fix d
  assume "getDestMqttConfig e rnd = Inr d"
  then show "qosMax d = 1"
    using getDestMqttConfig_qosMax [of e rnd d] one by simp
next
  fix d
  assume "getDestMqttConfig e rnd = Inr d"
  then show "qosMax d \<in> {0, 1, 2}"
    using getDestMqttConfig_qosMax [of e rnd d] getQoS_range by blast
qed

theorem qos_ceiling_validation_witness:
  "((map_of requiredEnv)(ascii ''FORWARD_QOS_MAX'' \<mapsto> ascii ''3'')) (ascii ''FORWARD_QOS_MAX'')
      = Some (ascii ''3'')
   \<and> parseInt (ascii ''3'') = Some 3 \<and> (3::int) \<notin> {0, 1, 2}
   \<and> isl (getConfig ((map_of requiredEnv)(ascii ''FORWARD_QOS_MAX'' \<mapsto> ascii ''3''))
             (\<lambda>i. 0) (\<lambda>i. 0))
   \<and> map_of requiredEnv (ascii ''FORWARD_QOS_MAX'') = None
   \<and> getDestMqttConfig (map_of requiredEnv) (\<lambda>i. 0) = Inr (policy 1 True)
   \<and> qosMax (policy 1 True) = 1"
proof -
  have a: "((map_of requiredEnv)(ascii ''FORWARD_QOS_MAX'' \<mapsto> ascii ''3'')) (ascii ''FORWARD_QOS_MAX'')
      = Some (ascii ''3'')" by simp
  have b: "parseInt (ascii ''3'') = Some 3"
    by (simp add: parseInt_def is_white_space_def digit_value_def ascii_def)
  have c: "(3::int) \<notin> {0, 1, 2}" by simp
  have d: "map_of requiredEnv (ascii ''FORWARD_QOS_MAX'') = None"
    by (simp add: requiredEnv_def ascii_def)
  have e: "getDestMqttConfig (map_of requiredEnv) (\<lambda>i. 0) = Inr (policy 1 True)"
    by (simp add: config_defs requiredEnv_def ascii_def policy_def)
  from qos_ceiling_validation [of "(map_of requiredEnv)(ascii ''FORWARD_QOS_MAX'' \<mapsto> ascii ''3'')"
      "ascii ''3''" 3 "\<lambda>i. 0" "\<lambda>i. 0" "\<lambda>i. 0"] a b c
  have f: "isl (getConfig ((map_of requiredEnv)(ascii ''FORWARD_QOS_MAX'' \<mapsto> ascii ''3''))
             (\<lambda>i. 0) (\<lambda>i. 0))" by blast
  from qos_ceiling_validation [of "map_of requiredEnv" "ascii ''3''" 3 "\<lambda>i. 0" "\<lambda>i. 0" "\<lambda>i. 0"] d e
  have g: "qosMax (policy 1 True) = 1" by blast
  from a b c d e f g show ?thesis by blast
qed

section \<open>Properties of the shutdown\<close>

lemma steps_append: "shutdownSteps (xs @ ys) = shutdownSteps xs @ shutdownSteps ys"
  by (simp add: shutdownSteps_def)

lemma steps_Nil: "shutdownSteps [] = []"
  by (simp add: shutdownSteps_def)

lemma steps_Cons: "shutdownSteps (x # xs) = (if isShutdownStep x then [x] else []) @ shutdownSteps xs"
  by (simp add: shutdownSteps_def)

lemma steps_guarded: "shutdownSteps (guarded present info call throws failure)
    = (if present then shutdownSteps call else [])"
  by (simp add: shutdownSteps_def guarded_def)

lemma steps_closeWriterIfOpen:
  "shutdownSteps (fst (closeWriterIfOpen t st)) = (if writer st \<and> \<not> writerClosed st then [WriterEnd] else [])"
  by (simp add: shutdownSteps_def closeWriterIfOpen_def)

lemma closeWriterIfOpen_state: "snd (closeWriterIfOpen t st) = st"
  by (simp add: closeWriterIfOpen_def)

lemma steps_onClientClose:
  "shutdownSteps (fst (onClientClose t st)) = (if writer st \<and> \<not> writerClosed st then [WriterEnd] else [])"
  using steps_closeWriterIfOpen [of t st]
  by (simp add: onClientClose_def case_prod_beta steps_Cons)

lemma onClientClose_state: "snd (onClientClose t st) = st"
  by (simp add: onClientClose_def case_prod_beta closeWriterIfOpen_state)

lemma steps_endClient:
  "shutdownSteps (fst (endClient sh e c st))
     = ClientEnd c # (if emitsClose e \<and> writer st \<and> \<not> writerClosed st then [WriterEnd] else [])"
proof (cases "emitsClose e")
  case True
  have "shutdownSteps (fst (endClient sh e c st))
      = ClientEnd c # shutdownSteps (fst (onClientClose (writerEndThrows sh) st))"
    using True by (simp add: endClient_def Let_def case_prod_beta shutdownSteps_def)
  then show ?thesis using True by (simp add: steps_onClientClose)
next
  case False
  then show ?thesis by (simp add: endClient_def shutdownSteps_def)
qed

lemma endClient_writer: "writer (snd (endClient sh e c st)) = writer st"
  by (simp add: endClient_def Let_def case_prod_beta onClientClose_state onWriterClose_def)

lemma endClient_writerClosed:
  "writerClosed (snd (endClient sh e c st))
     = (writerClosed st \<or> (emitsClose e \<and> writer st \<and> writerCloseArrives sh))"
  by (auto simp add: endClient_def Let_def case_prod_beta onClientClose_state onWriterClose_def)

lemma exitGracefully_steps:
  "shutdownSteps (fst (exitGracefully sh h exitCode exitError st)) =
     (if hasSetHealthOk h then [SetHealthOk False] else [])
     @ (if hasMqttUnsubscribe h then [Unsubscribe] else [])
     @ (if hasSourceClient h
        then shutdownSteps (fst (endClient sh (sourceEnd sh) SourceClient st)) else [])
     @ (if hasDestClient h
        then shutdownSteps (fst (endClient sh (destEnd sh) DestClient
               (if hasSourceClient h then snd (endClient sh (sourceEnd sh) SourceClient st)
                else st)))
        else [])
     @ (if hasCloseHealthCheckServer h then [CloseHealthCheckServer] else [])"
  by (simp add: exitGracefully_def Let_def case_prod_beta steps_append
        steps_guarded steps_Cons steps_Nil)

lemma steps_member: "x \<in> set (shutdownSteps fx) \<longleftrightarrow> x \<in> set fx \<and> isShutdownStep x"
  by (simp add: shutdownSteps_def)

lemma attempts_append: "attempts (xs @ ys) = attempts xs @ attempts ys"
  by (simp add: attempts_def)

lemma attempts_Nil: "attempts [] = []"
  by (simp add: attempts_def)

lemma attempts_Cons:
  "attempts (x # xs) =
     (if (isShutdownStep x \<or> isLogError x) \<and> x \<noteq> WriterEnd
         \<and> x \<noteq> LogError ''Failed to close file writer'' then [x] else [])
     @ attempts xs"
  by (simp add: attempts_def)

lemma attempts_if: "attempts (if c then xs else ys) = (if c then attempts xs else attempts ys)"
  by simp

lemma guarded_if: "guarded p info (fst (if p then E else D)) t f = guarded p info (fst E) t f"
  by (simp add: guarded_def)

lemma filter_if: "filter P (if c then xs else ys) = (if c then filter P xs else filter P ys)"
  by simp

lemma steps_endClient_own:
  "filter (\<lambda>e. e \<noteq> WriterEnd) (shutdownSteps (fst (endClient sh e c st))) = [ClientEnd c]"
  by (simp add: steps_endClient)

lemma attempts_closeWriterIfOpen: "attempts (fst (closeWriterIfOpen t st)) = []"
  by (simp add: attempts_def closeWriterIfOpen_def)

lemma attempts_endClient: "attempts (fst (endClient sh e c st)) = [ClientEnd c]"
  using attempts_closeWriterIfOpen [of "writerEndThrows sh" st]
  by (simp add: endClient_def onClientClose_def Let_def case_prod_beta attempts_def)

lemma attempts_guarded:
  "attempts (guarded present info call throws failure)
    = (if present
       then attempts call
            @ (if throws \<and> failure \<noteq> ''Failed to close file writer'' then [LogError failure]
               else [])
       else [])"
  by (simp add: attempts_def guarded_def)

lemma exitGracefully_attempts:
  "attempts (fst (exitGracefully sh h exitCode exitError st)) =
     (if hasSetHealthOk h then
        SetHealthOk False
        # (if setHealthOkThrows sh
           then [LogError ''Something went wrong when setting health checks to fail'']
           else [])
      else [])
     @ (if hasMqttUnsubscribe h then
          Unsubscribe
          # (if unsubscribeThrows sh
             then [LogError ''Something went wrong when unsubscribing from MQTT topics'']
             else [])
        else [])
     @ (if hasSourceClient h then
          ClientEnd SourceClient
          # (if endThrows (sourceEnd sh)
             then [LogError ''Something went wrong when disconnecting source MQTT client'']
             else [])
        else [])
     @ (if hasDestClient h then
          ClientEnd DestClient
          # (if endThrows (destEnd sh)
             then [LogError ''Something went wrong when disconnecting destination MQTT client'']
             else [])
        else [])
     @ (if hasCloseHealthCheckServer h then
          CloseHealthCheckServer
          # (if closeHealthCheckServerThrows sh
             then [LogError ''Something went wrong when closing health check server'']
             else [])
        else [])"
proof -
  have a: "attempts (if exitError then [LogFatal ''exitError''] else []) = []"
    and b: "attempts [LogInfo ''Start exiting gracefully'', SetExitCode exitCode] = []"
    and c: "attempts [LogInfo ''Exit process'', ProcessExit] = []"
    and d: "attempts [SetHealthOk False] = [SetHealthOk False]"
    and e: "attempts [Unsubscribe] = [Unsubscribe]"
    and f: "attempts [CloseHealthCheckServer] = [CloseHealthCheckServer]"
    by (simp_all add: attempts_def)
  show ?thesis
    by (simp add: exitGracefully_def Let_def case_prod_beta attempts_append attempts_guarded
          attempts_endClient attempts_Cons attempts_Nil guarded_if a b c d e f
          split del: if_split cong: if_cong)
qed

lemma writer_end_logged:
  assumes "WriterEnd \<in> set (fst (endClient sh e c st))" "writerEndThrows sh"
  shows "LogError ''Failed to close file writer'' \<in> set (fst (endClient sh e c st))"
  using assms
  by (auto simp add: endClient_def onClientClose_def closeWriterIfOpen_def Let_def
        split: if_splits)

lemma exitGracefully_members:
  "x \<in> set (fst (exitGracefully sh h exitCode exitError st)) \<and> (x = WriterEnd \<or> x = LogError ''Failed to close file writer'')
   \<longleftrightarrow> (x = WriterEnd \<or> x = LogError ''Failed to close file writer'')
       \<and> ((hasSourceClient h \<and> x \<in> set (fst (endClient sh (sourceEnd sh) SourceClient st)))
          \<or> (hasDestClient h \<and> x \<in> set (fst (endClient sh (destEnd sh) DestClient
                (if hasSourceClient h then snd (endClient sh (sourceEnd sh) SourceClient st)
                 else st)))))"
  by (auto simp add: exitGracefully_def Let_def case_prod_beta guarded_def)

text \<open>
  C9, as claimed, fails: with auditing on and a source client that emits \<open>"close"\<close> when it
  is ended, the file writer is ended before the destination client is.
\<close>

theorem shutdown_order_counterexample:
  "shutdownSteps (fst (exitGracefully smooth allHandles 143 True opened))
     = [SetHealthOk False, Unsubscribe, ClientEnd SourceClient, WriterEnd,
        ClientEnd DestClient, CloseHealthCheckServer]
   \<and> \<not> claimedOrder (shutdownSteps (fst (exitGracefully smooth allHandles 143 True opened)))"
proof -
  have "shutdownSteps (fst (exitGracefully smooth allHandles 143 True opened))
     = [SetHealthOk False, Unsubscribe, ClientEnd SourceClient, WriterEnd,
        ClientEnd DestClient, CloseHealthCheckServer]"
    by (simp add: exitGracefully_steps steps_endClient endClient_writer endClient_writerClosed
          smooth_def opened_def initial_def allHandles_def)
  then show ?thesis by (simp add: claimedOrder_def)
qed

text \<open>
  C9, amended. Once shutdown is triggered, \<open>exitGracefully\<close> attempts, in this order and
  each exactly once, every step whose handle is defined: fail the health check, unsubscribe
  the source topic filter, end the source client, end the destination client, close the
  health check server; then it exits the process. Each step is attempted independently: an
  exception thrown by a step is logged right after it and the later steps are attempted all
  the same. The file writer is not a step of this sequence: it is ended by
  \<open>closeWriterIfOpen\<close> exactly when it is open and a client that is ended emits \<open>"close"\<close>,
  so when the source client does, before the destination client is ended; an exception of
  \<open>writer.end()\<close> is logged too.
\<close>

theorem shutdown_order:
  "attempts (fst (exitGracefully sh h exitCode exitError st)) =
     (if hasSetHealthOk h then
        SetHealthOk False
        # (if setHealthOkThrows sh
           then [LogError ''Something went wrong when setting health checks to fail'']
           else [])
      else [])
     @ (if hasMqttUnsubscribe h then
          Unsubscribe
          # (if unsubscribeThrows sh
             then [LogError ''Something went wrong when unsubscribing from MQTT topics'']
             else [])
        else [])
     @ (if hasSourceClient h then
          ClientEnd SourceClient
          # (if endThrows (sourceEnd sh)
             then [LogError ''Something went wrong when disconnecting source MQTT client'']
             else [])
        else [])
     @ (if hasDestClient h then
          ClientEnd DestClient
          # (if endThrows (destEnd sh)
             then [LogError ''Something went wrong when disconnecting destination MQTT client'']
             else [])
        else [])
     @ (if hasCloseHealthCheckServer h then
          CloseHealthCheckServer
          # (if closeHealthCheckServerThrows sh
             then [LogError ''Something went wrong when closing health check server'']
             else [])
        else [])
   \<and> filter (\<lambda>e. e \<noteq> WriterEnd)
       (shutdownSteps (fst (exitGracefully sh h exitCode exitError st)))
       = (if hasSetHealthOk h then [SetHealthOk False] else [])
         @ (if hasMqttUnsubscribe h then [Unsubscribe] else [])
         @ (if hasSourceClient h then [ClientEnd SourceClient] else [])
         @ (if hasDestClient h then [ClientEnd DestClient] else [])
         @ (if hasCloseHealthCheckServer h then [CloseHealthCheckServer] else [])
   \<and> last (fst (exitGracefully sh h exitCode exitError st)) = ProcessExit
   \<and> (WriterEnd \<in> set (fst (exitGracefully sh h exitCode exitError st))
        \<longleftrightarrow> writer st \<and> \<not> writerClosed st
            \<and> ((hasSourceClient h \<and> emitsClose (sourceEnd sh))
               \<or> (hasDestClient h \<and> emitsClose (destEnd sh))))
   \<and> (hasSourceClient h \<and> hasDestClient h \<and> writer st \<and> \<not> writerClosed st
        \<and> emitsClose (sourceEnd sh) \<longrightarrow>
        WriterEnd \<in> set (takeWhile (\<lambda>e. e \<noteq> ClientEnd DestClient)
          (shutdownSteps (fst (exitGracefully sh h exitCode exitError st)))))
   \<and> (writerEndThrows sh \<and> WriterEnd \<in> set (fst (exitGracefully sh h exitCode exitError st))
        \<longrightarrow> LogError ''Failed to close file writer''
              \<in> set (fst (exitGracefully sh h exitCode exitError st)))"
proof (intro conjI)
  show "attempts (fst (exitGracefully sh h exitCode exitError st)) =
     (if hasSetHealthOk h then
        SetHealthOk False
        # (if setHealthOkThrows sh
           then [LogError ''Something went wrong when setting health checks to fail'']
           else [])
      else [])
     @ (if hasMqttUnsubscribe h then
          Unsubscribe
          # (if unsubscribeThrows sh
             then [LogError ''Something went wrong when unsubscribing from MQTT topics'']
             else [])
        else [])
     @ (if hasSourceClient h then
          ClientEnd SourceClient
          # (if endThrows (sourceEnd sh)
             then [LogError ''Something went wrong when disconnecting source MQTT client'']
             else [])
        else [])
     @ (if hasDestClient h then
          ClientEnd DestClient
          # (if endThrows (destEnd sh)
             then [LogError ''Something went wrong when disconnecting destination MQTT client'']
             else [])
        else [])
     @ (if hasCloseHealthCheckServer h then
          CloseHealthCheckServer
          # (if closeHealthCheckServerThrows sh
             then [LogError ''Something went wrong when closing health check server'']
             else [])
        else [])"
    by (rule exitGracefully_attempts)
  show "filter (\<lambda>e. e \<noteq> WriterEnd)
       (shutdownSteps (fst (exitGracefully sh h exitCode exitError st)))
       = (if hasSetHealthOk h then [SetHealthOk False] else [])
         @ (if hasMqttUnsubscribe h then [Unsubscribe] else [])
         @ (if hasSourceClient h then [ClientEnd SourceClient] else [])
         @ (if hasDestClient h then [ClientEnd DestClient] else [])
         @ (if hasCloseHealthCheckServer h then [CloseHealthCheckServer] else [])"
    by (simp add: exitGracefully_steps filter_if steps_endClient_own
          split del: if_split cong: if_cong)
  show "last (fst (exitGracefully sh h exitCode exitError st)) = ProcessExit"
    by (simp add: exitGracefully_def Let_def case_prod_beta)
  have "WriterEnd \<in> set (fst (exitGracefully sh h exitCode exitError st))
      \<longleftrightarrow> WriterEnd \<in> set (shutdownSteps (fst (exitGracefully sh h exitCode exitError st)))"
    by (simp add: steps_member)
  also have "\<dots> \<longleftrightarrow> writer st \<and> \<not> writerClosed st
            \<and> ((hasSourceClient h \<and> emitsClose (sourceEnd sh))
               \<or> (hasDestClient h \<and> emitsClose (destEnd sh)))"
    by (auto simp add: exitGracefully_steps steps_endClient endClient_writer endClient_writerClosed)
  finally show "WriterEnd \<in> set (fst (exitGracefully sh h exitCode exitError st))
        \<longleftrightarrow> writer st \<and> \<not> writerClosed st
            \<and> ((hasSourceClient h \<and> emitsClose (sourceEnd sh))
               \<or> (hasDestClient h \<and> emitsClose (destEnd sh)))" .
  show "hasSourceClient h \<and> hasDestClient h \<and> writer st \<and> \<not> writerClosed st
        \<and> emitsClose (sourceEnd sh) \<longrightarrow>
        WriterEnd \<in> set (takeWhile (\<lambda>e. e \<noteq> ClientEnd DestClient)
          (shutdownSteps (fst (exitGracefully sh h exitCode exitError st))))"
    by (simp add: exitGracefully_steps steps_endClient)
  show "writerEndThrows sh \<and> WriterEnd \<in> set (fst (exitGracefully sh h exitCode exitError st))
        \<longrightarrow> LogError ''Failed to close file writer''
              \<in> set (fst (exitGracefully sh h exitCode exitError st))"
    using exitGracefully_members [of WriterEnd sh h exitCode exitError st]
      exitGracefully_members [of "LogError ''Failed to close file writer''" sh h exitCode exitError st]
      writer_end_logged [of sh "sourceEnd sh" SourceClient st]
      writer_end_logged [of sh "destEnd sh" DestClient
        "if hasSourceClient h then snd (endClient sh (sourceEnd sh) SourceClient st) else st"]
    by blast
qed

theorem shutdown_order_witness:
  "hasSourceClient allHandles \<and> hasDestClient allHandles
   \<and> writer opened \<and> \<not> writerClosed opened
   \<and> emitsClose (sourceEnd (smooth\<lparr>unsubscribeThrows := True, writerEndThrows := True\<rparr>))
   \<and> writerEndThrows (smooth\<lparr>unsubscribeThrows := True, writerEndThrows := True\<rparr>)
   \<and> attempts (fst (exitGracefully (smooth\<lparr>unsubscribeThrows := True, writerEndThrows := True\<rparr>)
        allHandles 143 True opened))
       = [SetHealthOk False, Unsubscribe,
          LogError ''Something went wrong when unsubscribing from MQTT topics'',
          ClientEnd SourceClient, ClientEnd DestClient, CloseHealthCheckServer]
   \<and> WriterEnd \<in> set (fst (exitGracefully (smooth\<lparr>unsubscribeThrows := True, writerEndThrows := True\<rparr>)
        allHandles 143 True opened))
   \<and> WriterEnd \<in> set (takeWhile (\<lambda>e. e \<noteq> ClientEnd DestClient)
        (shutdownSteps (fst (exitGracefully (smooth\<lparr>unsubscribeThrows := True, writerEndThrows := True\<rparr>)
          allHandles 143 True opened))))
   \<and> LogError ''Failed to close file writer''
       \<in> set (fst (exitGracefully (smooth\<lparr>unsubscribeThrows := True, writerEndThrows := True\<rparr>)
            allHandles 143 True opened))"
  using shutdown_order [of "smooth\<lparr>unsubscribeThrows := True, writerEndThrows := True\<rparr>"
      allHandles 143 True opened]
  by (simp add: smooth_def opened_def initial_def allHandles_def)

section \<open>Properties of the startup\<close>

lemma ensureWriter_cases:
  "fst (ensureWriter saveToFile t st) = []
   \<or> fst (ensureWriter saveToFile t st) = [LogError ''Failed to initialize save-to-file writer'']
   \<or> (\<exists>p. fst (ensureWriter saveToFile t st) = [CreateWriteStream p, LogInfo ''Enabled save-to-file''])"
  by (simp add: ensureWriter_def split: option.split)

lemma createDuplicator_calls:
  assumes "\<not> sourceConnectFails s" and "\<not> destConnectFails s"
  shows "fst (createDuplicator s source dest saveToFile) =
     [LogInfo ''Connect to MQTT broker'', Connect SourceClient (url source),
      LogInfo ''Connect to MQTT broker'', Connect DestClient (url dest),
      AttachClientEventLogs SourceClient, AttachClientEventLogs DestClient]
     @ fst (ensureWriter saveToFile (createWriteStreamThrows s) initial)
     @ [SetInterval (1000 * logIntervalInSeconds), OnMessage dest saveToFile,
        LogInfo ''Subscribe to source MQTT topics'',
        Subscribe (topicFilter source) (subscribeQos source)]
     @ (if subscribeFails s then [LogFatal ''Subscribing to source MQTT topics failed'']
        else [LogDebug ''Subscribed to source MQTT topics'', OnClose SourceClient,
              OnClose DestClient])"
  using assms by (simp add: createDuplicator_def Let_def case_prod_beta)

lemma createDuplicator_no_connection:
  assumes "sourceConnectFails s \<or> destConnectFails s"
  shows "list_all (\<lambda>e. \<not> isSubscribe e) (fst (createDuplicator s source dest saveToFile))"
  using assms by (auto simp add: createDuplicator_def Let_def)

text \<open>
  C10. Whenever \<open>createDuplicator\<close> issues the subscribe call, the calls made before it
  register exactly one \<open>"message"\<close> handler, the one closed over the \<open>dest\<close> policy and the
  \<open>saveToFile\<close> configuration it was given; and it does issue the call once both
  connections are up.
\<close>

theorem handler_before_subscribe:
  "(list_ex isSubscribe (fst (createDuplicator s source dest saveToFile)) \<longrightarrow>
      messageHandlers (takeWhile (\<lambda>e. \<not> isSubscribe e)
        (fst (createDuplicator s source dest saveToFile))) = [(dest, saveToFile)])
   \<and> (\<not> sourceConnectFails s \<and> \<not> destConnectFails s \<longrightarrow>
      list_ex isSubscribe (fst (createDuplicator s source dest saveToFile)))"
proof (intro conjI impI)
  assume sub: "list_ex isSubscribe (fst (createDuplicator s source dest saveToFile))"
  have c: "\<not> sourceConnectFails s \<and> \<not> destConnectFails s"
  proof (rule ccontr)
    assume "\<not> (\<not> sourceConnectFails s \<and> \<not> destConnectFails s)"
    then have "list_all (\<lambda>e. \<not> isSubscribe e) (fst (createDuplicator s source dest saveToFile))"
      using createDuplicator_no_connection [of s source dest saveToFile] by blast
    with sub show False by (simp add: list_all_iff list_ex_iff)
  qed
  then have calls: "fst (createDuplicator s source dest saveToFile) =
     [LogInfo ''Connect to MQTT broker'', Connect SourceClient (url source),
      LogInfo ''Connect to MQTT broker'', Connect DestClient (url dest),
      AttachClientEventLogs SourceClient, AttachClientEventLogs DestClient]
     @ fst (ensureWriter saveToFile (createWriteStreamThrows s) initial)
     @ [SetInterval (1000 * logIntervalInSeconds), OnMessage dest saveToFile,
        LogInfo ''Subscribe to source MQTT topics'',
        Subscribe (topicFilter source) (subscribeQos source)]
     @ (if subscribeFails s then [LogFatal ''Subscribing to source MQTT topics failed'']
        else [LogDebug ''Subscribed to source MQTT topics'', OnClose SourceClient,
              OnClose DestClient])"
    using createDuplicator_calls [of s source dest saveToFile] by blast
  from ensureWriter_cases [of saveToFile "createWriteStreamThrows s" initial]
  show "messageHandlers (takeWhile (\<lambda>e. \<not> isSubscribe e)
        (fst (createDuplicator s source dest saveToFile))) = [(dest, saveToFile)]"
  proof (elim disjE exE)
    assume "fst (ensureWriter saveToFile (createWriteStreamThrows s) initial) = []"
    then show ?thesis by (simp add: calls)
  next
    assume "fst (ensureWriter saveToFile (createWriteStreamThrows s) initial)
        = [LogError ''Failed to initialize save-to-file writer'']"
    then show ?thesis by (simp add: calls)
  next
    fix p
    assume "fst (ensureWriter saveToFile (createWriteStreamThrows s) initial)
        = [CreateWriteStream p, LogInfo ''Enabled save-to-file'']"
    then show ?thesis by (simp add: calls)
  qed
next
  assume "\<not> sourceConnectFails s \<and> \<not> destConnectFails s"
  then show "list_ex isSubscribe (fst (createDuplicator s source dest saveToFile))"
    using createDuplicator_calls [of s source dest saveToFile] by (simp add: list_ex_iff)
qed

theorem handler_before_subscribe_witness:
  "\<not> sourceConnectFails calm \<and> \<not> destConnectFails calm
   \<and> list_ex isSubscribe (fst (createDuplicator calm (sourceOf (ascii ''t/#'') 2) (policy 1 True) auditOn))
   \<and> messageHandlers (takeWhile (\<lambda>e. \<not> isSubscribe e)
        (fst (createDuplicator calm (sourceOf (ascii ''t/#'') 2) (policy 1 True) auditOn)))
       = [(policy 1 True, auditOn)]"
  using handler_before_subscribe [of calm "sourceOf (ascii ''t/#'') 2" "policy 1 True" auditOn]
  by (simp add: calm_def)

end
